theory Spec2Isabelle
  imports Main "HOL-Library.Char_ord" "HOL-Library.List_Lexorder"
begin

chapter \<open>The generator driver of Halide (src/Generator.cpp)\<close>

text \<open>
  A shallow embedding of \<^verbatim>\<open>src/Generator.cpp\<close>: the name validator, the artifact
  planner (\<^verbatim>\<open>get_extension\<close>, \<^verbatim>\<open>compute_outputs\<close>), the parameter discovery of
  \<^verbatim>\<open>GeneratorBase\<close> and the command-line driver \<^verbatim>\<open>generate_filter_main\<close>.
  The first part holds the definitions, each next to the lines of the source it
  embeds; the second part holds the properties.
\<close>

section \<open>Definitions\<close>

subsection \<open>Name validation (lines 13-30)\<close>

text \<open>
  \<^verbatim>\<open>bool is_alpha(char c) { return (c >= 'A' && c <= 'Z') || (c >= 'a' && c <= 'z'); }\<close>

  A C++ \<^verbatim>\<open>char\<close> is one byte, as \<^typ>\<open>char\<close> is. The comparisons are made on the
  promoted integer value. The order of \<^typ>\<open>char\<close> is the order of the unsigned
  codes; where \<^verbatim>\<open>char\<close> is signed the bytes from 128 on are negative, and they fail
  \<^verbatim>\<open>c >= 'A'\<close> instead of \<^verbatim>\<open>c <= 'z'\<close>: the three ranges tested here lie below 128,
  so both readings give the same answer (lemma \<open>is_alpha_signed_char\<close> below).
\<close>

definition is_alpha :: "char \<Rightarrow> bool" where
  "is_alpha c \<longleftrightarrow> (c \<ge> CHR ''A'' \<and> c \<le> CHR ''Z'') \<or> (c \<ge> CHR ''a'' \<and> c \<le> CHR ''z'')"

text \<open>\<^verbatim>\<open>// Note that this includes '_'\<close>\<close>

definition is_alnum :: "char \<Rightarrow> bool" where
  "is_alnum c \<longleftrightarrow> is_alpha c \<or> (c = CHR ''_'') \<or> (c \<ge> CHR ''0'' \<and> c \<le> CHR ''9'')"

text \<open>
  The loop of \<^verbatim>\<open>is_valid_name\<close>, from index \<open>i\<close> on:
  \<^verbatim>\<open>for (size_t i = 1; i < n.size(); ++i) {
      if (!is_alnum(n[i])) return false;
      if (n[i] == '_' && n[i-1] == '_') return false;
  }
  return true;\<close>
  It is entered with \<open>i = 1\<close>, so \<open>i - 1\<close> never goes below 0.
\<close>

function is_valid_name_loop :: "string \<Rightarrow> nat \<Rightarrow> bool" where
  "is_valid_name_loop n i =
     (if i < length n then
        (if \<not> is_alnum (n ! i) then False
         else if n ! i = CHR ''_'' \<and> n ! (i - 1) = CHR ''_'' then False
         else is_valid_name_loop n (i + 1))
      else True)"
  by pat_completeness auto
termination
  by (relation "measure (\<lambda>(n, i). length n - i)") auto

declare is_valid_name_loop.simps [simp del]

definition is_valid_name :: "string \<Rightarrow> bool" where
  "is_valid_name n =
     (if n = [] then False
      else if \<not> is_alpha (n ! 0) then False
      else is_valid_name_loop n 1)"

text \<open>
  The rule set in the words of the specification (section 4.1): non-empty; the first
  character an ASCII letter; every later character an ASCII letter, digit or
  underscore; no two consecutive underscores anywhere. The character classes are
  written out as the lists of their members.
\<close>

definition ascii_letter :: "char \<Rightarrow> bool" where
  "ascii_letter c \<longleftrightarrow> c \<in> set ''ABCDEFGHIJKLMNOPQRSTUVWXYZabcdefghijklmnopqrstuvwxyz''"

definition ascii_digit :: "char \<Rightarrow> bool" where
  "ascii_digit c \<longleftrightarrow> c \<in> set ''0123456789''"

definition name_char :: "char \<Rightarrow> bool" where
  "name_char c \<longleftrightarrow> ascii_letter c \<or> ascii_digit c \<or> c = CHR ''_''"

definition contains_double_underscore :: "string \<Rightarrow> bool" where
  "contains_double_underscore s \<longleftrightarrow>
     (\<exists>i < length s - 1. s ! i = CHR ''_'' \<and> s ! (i + 1) = CHR ''_'')"

definition valid_name_spec :: "string \<Rightarrow> bool" where
  "valid_name_spec s \<longleftrightarrow>
     s \<noteq> [] \<and> ascii_letter (hd s) \<and> (\<forall>c \<in> set (tl s). name_char c) \<and>
     \<not> contains_double_underscore s"

text \<open>The value of a byte read as a signed \<^verbatim>\<open>char\<close>.\<close>

definition signed_char_value :: "char \<Rightarrow> int" where
  "signed_char_value c =
     (if (of_char c :: nat) < 128 then int (of_char c) else int (of_char c) - 256)"

subsection \<open>Targets, emit options and outputs\<close>

text \<open>
  \<^verbatim>\<open>Target.h\<close>, \<^verbatim>\<open>Outputs.h\<close> and \<^verbatim>\<open>Generator.h\<close> are not among the sources. The
  enumerations of \<^verbatim>\<open>Target\<close> keep the enumerators that \<^verbatim>\<open>Generator.cpp\<close> and the
  specification name (\<^verbatim>\<open>Target::Windows\<close>, Linux; \<^verbatim>\<open>Target::PNaCl\<close>; \<^verbatim>\<open>Target::MinGW\<close>)
  and stand for every other enumerator by a numbered one. A target is its operating
  system, its architecture and its set of features (specification, section 3).
\<close>

datatype OS = Windows | Linux | OtherOS nat

datatype Arch = PNaCl | OtherArch nat

datatype Feature = MinGW | OtherFeature nat

record Target =
  os :: OS
  arch :: Arch
  features :: "Feature set"

definition has_feature :: "Target \<Rightarrow> Feature \<Rightarrow> bool" where
  "has_feature t f \<longleftrightarrow> f \<in> features t"

text \<open>
  \<^verbatim>\<open>GeneratorBase::EmitOptions\<close>: one flag for each kind of artifact, read by
  \<^verbatim>\<open>compute_outputs\<close>, and the table \<^verbatim>\<open>extensions\<close> (a \<^verbatim>\<open>std::map\<close> from a default
  extension to its replacement).
\<close>

record EmitOptions =
  emit_o :: bool
  emit_h :: bool
  emit_cpp :: bool
  emit_assembly :: bool
  emit_bitcode :: bool
  emit_stmt :: bool
  emit_stmt_html :: bool
  emit_static_library :: bool
  extensions :: "string \<rightharpoonup> string"

text \<open>
  \<^verbatim>\<open>Outputs\<close>: one file name for each kind of artifact. A default-constructed
  \<^verbatim>\<open>Outputs\<close> holds empty names; a kind that is not requested keeps the empty name.
\<close>

record Outputs =
  object_name :: string
  assembly_name :: string
  bitcode_name :: string
  c_header_name :: string
  c_source_name :: string
  stmt_name :: string
  stmt_html_name :: string
  static_library_name :: string

definition Outputs_default :: Outputs where
  "Outputs_default =
     \<lparr>object_name = [], assembly_name = [], bitcode_name = [], c_header_name = [],
      c_source_name = [], stmt_name = [], stmt_html_name = [], static_library_name = []\<rparr>"

subsection \<open>The artifact planner (lines 41-96)\<close>

text \<open>
  \<^verbatim>\<open>auto it = options.extensions.find(def);
  if (it != options.extensions.end()) { return it->second; }
  return def;\<close>
\<close>

definition get_extension :: "string \<Rightarrow> EmitOptions \<Rightarrow> string" where
  "get_extension def options =
     (case extensions options def of Some replacement \<Rightarrow> replacement | None \<Rightarrow> def)"

text \<open>
  \<^verbatim>\<open>compute_outputs\<close> assigns the fields of \<^verbatim>\<open>output_files\<close> one after the other, each
  under the flag of its kind; the model keeps the order of the source.
\<close>

definition compute_outputs :: "Target \<Rightarrow> string \<Rightarrow> EmitOptions \<Rightarrow> Outputs" where
  "compute_outputs target base_path options =
     (let is_windows_coff = (os target = Windows \<and> \<not> has_feature target MinGW);
          output_files = Outputs_default;
          output_files =
            (if emit_o options then
               (if arch target = PNaCl then
                  output_files\<lparr>object_name := base_path @ get_extension ''.bc'' options\<rparr>
                else if is_windows_coff then
                  output_files\<lparr>object_name := base_path @ get_extension ''.obj'' options\<rparr>
                else
                  output_files\<lparr>object_name := base_path @ get_extension ''.o'' options\<rparr>)
             else output_files);
          output_files =
            (if emit_assembly options then
               output_files\<lparr>assembly_name := base_path @ get_extension ''.s'' options\<rparr>
             else output_files);
          output_files =
            (if emit_bitcode options then
               output_files\<lparr>bitcode_name := base_path @ get_extension ''.bc'' options\<rparr>
             else output_files);
          output_files =
            (if emit_h options then
               output_files\<lparr>c_header_name := base_path @ get_extension ''.h'' options\<rparr>
             else output_files);
          output_files =
            (if emit_cpp options then
               output_files\<lparr>c_source_name := base_path @ get_extension ''.cpp'' options\<rparr>
             else output_files);
          output_files =
            (if emit_stmt options then
               output_files\<lparr>stmt_name := base_path @ get_extension ''.stmt'' options\<rparr>
             else output_files);
          output_files =
            (if emit_stmt_html options then
               output_files\<lparr>stmt_html_name := base_path @ get_extension ''.html'' options\<rparr>
             else output_files);
          output_files =
            (if emit_static_library options then
               (if is_windows_coff then
                  output_files\<lparr>static_library_name := base_path @ get_extension ''.lib'' options\<rparr>
                else
                  output_files\<lparr>static_library_name := base_path @ get_extension ''.a'' options\<rparr>)
             else output_files)
      in output_files)"

text \<open>The options that request every kind of artifact, over a given extension table.\<close>

definition emit_everything :: "(string \<rightharpoonup> string) \<Rightarrow> EmitOptions" where
  "emit_everything table =
     \<lparr>emit_o = True, emit_h = True, emit_cpp = True, emit_assembly = True,
      emit_bitcode = True, emit_stmt = True, emit_stmt_html = True,
      emit_static_library = True, extensions = table\<rparr>"

definition requests_all_kinds :: "EmitOptions \<Rightarrow> bool" where
  "requests_all_kinds options \<longleftrightarrow>
     emit_o options \<and> emit_h options \<and> emit_cpp options \<and> emit_assembly options \<and>
     emit_bitcode options \<and> emit_stmt options \<and> emit_stmt_html options \<and>
     emit_static_library options"

subsection \<open>Errors\<close>

text \<open>
  \<^verbatim>\<open>user_assert\<close> and \<^verbatim>\<open>user_error\<close> raise a user error, \<^verbatim>\<open>internal_assert\<close> an internal
  error; each carries the message streamed into it. An operation that can raise
  returns the error or its value, together with the state as the raise left it: what
  was assigned before the raise stays assigned.
\<close>

datatype error = UserError string | InternalError string

definition is_user_error :: "error \<Rightarrow> bool" where
  "is_user_error e = (case e of UserError _ \<Rightarrow> True | InternalError _ \<Rightarrow> False)"

definition newline :: string where
  "newline = [CHR 0x0A]"

subsection \<open>Parameters, inputs and configuration parameters\<close>

text \<open>
  The objects a generator declares live at addresses; the generator holds pointers to
  them. \<^verbatim>\<open>nullptr\<close> is the address 0.
\<close>

type_synonym addr = nat

definition nullptr :: addr where
  "nullptr = 0"

text \<open>The element types that \<^verbatim>\<open>get_halide_type_enum_map\<close> (lines 119-132) names.\<close>

datatype Type = Halide_Bool | Halide_Int nat | Halide_UInt nat | Halide_Float nat

definition halide_type_enum_map :: "(string \<times> Type) list" where
  "halide_type_enum_map =
     [(''bool'', Halide_Bool), (''int8'', Halide_Int 8), (''int16'', Halide_Int 16),
      (''int32'', Halide_Int 32), (''uint8'', Halide_UInt 8), (''uint16'', Halide_UInt 16),
      (''uint32'', Halide_UInt 32), (''float32'', Halide_Float 32),
      (''float64'', Halide_Float 64)]"

text \<open>
  Expressions belong to the pipeline compiler; the model only tells a defined
  expression from the undefined one that \<^verbatim>\<open>Expr()\<close> constructs (\<open>None\<close>).
\<close>

typedecl IRNode

type_synonym Expr = "IRNode option"

text \<open>
  \<^verbatim>\<open>Internal::Parameter\<close>, by the accessors that \<^verbatim>\<open>Generator.cpp\<close> calls:
  \<^verbatim>\<open>type()\<close>, \<^verbatim>\<open>is_buffer()\<close>, \<^verbatim>\<open>dimensions()\<close>, \<^verbatim>\<open>name()\<close>, \<^verbatim>\<open>is_explicit_name()\<close>,
  \<^verbatim>\<open>get_scalar_expr()\<close>, \<^verbatim>\<open>get_min_value()\<close>, \<^verbatim>\<open>get_max_value()\<close>.
\<close>

record Parameter =
  parameter_type :: Type
  is_buffer :: bool
  dimensions :: int
  parameter_name :: string
  is_explicit_name :: bool
  scalar_expr :: Expr
  min_value :: Expr
  max_value :: Expr

text \<open>
  The constructor \<^verbatim>\<open>Parameter(type, is_buffer, dimensions, name, is_explicit_name,
  register_instance)\<close> as lines 496 and 508-512 call it, with \<^verbatim>\<open>register_instance\<close>
  false: the new parameter is not entered into the instance registry.
\<close>

definition Parameter_new :: "Type \<Rightarrow> bool \<Rightarrow> int \<Rightarrow> string \<Rightarrow> bool \<Rightarrow> Parameter" where
  "Parameter_new t buffer d n explicit =
     \<lparr>parameter_type = t, is_buffer = buffer, dimensions = d, parameter_name = n,
      is_explicit_name = explicit, scalar_expr = None, min_value = None, max_value = None\<rparr>"

datatype ArgumentKind = InputScalar | InputBuffer | OutputBuffer

record Argument =
  argument_name :: string
  argument_kind :: ArgumentKind
  argument_type :: Type
  argument_dimensions :: int
  argument_def :: Expr
  argument_min :: Expr
  argument_max :: Expr

text \<open>\<^verbatim>\<open>to_argument\<close> (lines 105-115).\<close>

definition to_argument :: "Parameter \<Rightarrow> Argument" where
  "to_argument param =
     (let def = None; min = None; max = None;
          (def, min, max) =
            (if \<not> is_buffer param then (scalar_expr param, min_value param, max_value param)
             else (def, min, max))
      in \<lparr>argument_name = parameter_name param,
          argument_kind = (if is_buffer param then InputBuffer else InputScalar),
          argument_type = parameter_type param,
          argument_dimensions = dimensions param,
          argument_def = def, argument_min = min, argument_max = max\<rparr>)"

text \<open>
  \<^verbatim>\<open>GeneratorParamBase\<close>: the member \<^verbatim>\<open>name\<close> and the value that the virtual
  \<^verbatim>\<open>from_string\<close> and \<^verbatim>\<open>to_string\<close> of the subclass write and read. The type of the
  value is left open.
\<close>

record 'v GeneratorParamBase =
  generator_param_name :: string
  generator_param_value :: 'v

text \<open>
  \<^verbatim>\<open>GeneratorInputBase\<close>: the member \<^verbatim>\<open>parameter_\<close> and the two pointers
  \<^verbatim>\<open>type_param\<close> and \<^verbatim>\<open>dimension_param\<close> to configuration parameters, null when the
  input has none. \<^verbatim>\<open>name()\<close> and \<^verbatim>\<open>type()\<close> read \<^verbatim>\<open>parameter_\<close>, which the
  constructor (line 496) builds from the name and the type. The members \<^verbatim>\<open>expr_\<close> and
  \<^verbatim>\<open>func_\<close> hold values of the pipeline compiler and are left out: nothing in this
  file reads them.
\<close>

record GeneratorInputBase =
  input_parameter :: Parameter
  type_param :: addr
  dimension_param :: addr

definition input_name :: "GeneratorInputBase \<Rightarrow> string" where
  "input_name input = parameter_name (input_parameter input)"

text \<open>
  The kinds of \<^verbatim>\<open>ObjectInstanceRegistry\<close> that \<^verbatim>\<open>build_params\<close> asks for.
\<close>

datatype Kind = FilterParam | GeneratorInput | GeneratorParam

subsection \<open>The generator instance (lines 363-485)\<close>

text \<open>
  The state that the member functions of \<^verbatim>\<open>GeneratorBase\<close> read and write:
  \<^item> \<open>instances_in_range\<close>: what \<^verbatim>\<open>ObjectInstanceRegistry::instances_in_range(this,
    size, kind)\<close> returns, the addresses of the objects of that kind declared inside
    the instance;
  \<^item> \<open>parameter_at\<close>, \<open>input_at\<close>, \<open>generator_param_at\<close>: the objects at these addresses;
  \<^item> \<open>params_built\<close>, \<open>filter_inputs\<close>, \<open>filter_params\<close>, \<open>generator_params\<close>: the
    members of \<^verbatim>\<open>GeneratorBase\<close>, the vectors and the map holding pointers.
\<close>

record 'v GeneratorBase =
  instances_in_range :: "Kind \<Rightarrow> addr list"
  parameter_at :: "addr \<Rightarrow> Parameter"
  input_at :: "addr \<Rightarrow> GeneratorInputBase"
  generator_param_at :: "addr \<Rightarrow> 'v GeneratorParamBase"
  params_built :: bool
  filter_inputs :: "addr list"
  filter_params :: "addr list"
  generator_params :: "string \<rightharpoonup> addr"

text \<open>
  The constructor (line 363) sets \<^verbatim>\<open>params_built(false)\<close>; the vectors and the map
  start empty.
\<close>

definition GeneratorBase_new ::
  "(Kind \<Rightarrow> addr list) \<Rightarrow> (addr \<Rightarrow> Parameter) \<Rightarrow> (addr \<Rightarrow> GeneratorInputBase) \<Rightarrow>
   (addr \<Rightarrow> 'v GeneratorParamBase) \<Rightarrow> 'v GeneratorBase" where
  "GeneratorBase_new declared params inputs gparams =
     \<lparr>instances_in_range = declared, parameter_at = params, input_at = inputs,
      generator_param_at = gparams, params_built = False, filter_inputs = [],
      filter_params = [], generator_params = Map.empty\<rparr>"

text \<open>
  The first loop of \<^verbatim>\<open>build_params\<close> (lines 381-390), over the vector \<^verbatim>\<open>vf\<close>. The
  inner loop raises the same error whichever earlier parameter has the name.
\<close>

fun add_filter_params ::
  "addr list \<Rightarrow> 'v GeneratorBase \<Rightarrow> (error + unit) \<times> 'v GeneratorBase" where
  "add_filter_params [] s = (Inr (), s)"
| "add_filter_params (v # vf) s =
     (let param = v in
      if param = nullptr then (Inl (InternalError ''param != nullptr''), s)
      else if \<not> is_explicit_name (parameter_at s param) then
        (Inl (UserError (''Params in Generators must have explicit names: '' @
           parameter_name (parameter_at s param))), s)
      else if \<not> is_valid_name (parameter_name (parameter_at s param)) then
        (Inl (UserError (''Invalid Param name: '' @ parameter_name (parameter_at s param))), s)
      else if list_ex (\<lambda>p. parameter_name (parameter_at s p) =
                 parameter_name (parameter_at s param)) (filter_params s) then
        (Inl (UserError (''Duplicate Param name: '' @ parameter_name (parameter_at s param))), s)
      else add_filter_params vf (s\<lparr>filter_params := filter_params s @ [param]\<rparr>))"

text \<open>The second loop (lines 394-402), over the vector \<^verbatim>\<open>vi\<close>.\<close>

fun add_filter_inputs ::
  "addr list \<Rightarrow> 'v GeneratorBase \<Rightarrow> (error + unit) \<times> 'v GeneratorBase" where
  "add_filter_inputs [] s = (Inr (), s)"
| "add_filter_inputs (v # vi) s =
     (let input = v in
      if input = nullptr then (Inl (InternalError ''input != nullptr''), s)
      else if \<not> is_valid_name (input_name (input_at s input)) then
        (Inl (UserError (''Invalid Input name: ('' @ input_name (input_at s input) @
           '')'' @ newline)), s)
      else if list_ex (\<lambda>i. input_name (input_at s i) = input_name (input_at s input))
                (filter_inputs s) then
        (Inl (UserError (''Duplicate Input name: ('' @ input_name (input_at s input) @
           '')'' @ newline)), s)
      else add_filter_inputs vi (s\<lparr>filter_inputs := filter_inputs s @ [input]\<rparr>))"

text \<open>The third loop (lines 410-417), over the vector \<^verbatim>\<open>vg\<close>.\<close>

fun add_generator_params ::
  "addr list \<Rightarrow> 'v GeneratorBase \<Rightarrow> (error + unit) \<times> 'v GeneratorBase" where
  "add_generator_params [] s = (Inr (), s)"
| "add_generator_params (v # vg) s =
     (let param = v in
      if param = nullptr then (Inl (InternalError ''param != nullptr''), s)
      else if \<not> is_valid_name (generator_param_name (generator_param_at s param)) then
        (Inl (UserError (''Invalid GeneratorParam name: '' @
           generator_param_name (generator_param_at s param))), s)
      else if generator_params s (generator_param_name (generator_param_at s param)) \<noteq> None
      then
        (Inl (UserError (''Duplicate GeneratorParam name: '' @
           generator_param_name (generator_param_at s param))), s)
      else add_generator_params vg
        (s\<lparr>generator_params :=
             (generator_params s)(generator_param_name (generator_param_at s param) \<mapsto>
                param)\<rparr>))"

text \<open>The error that line 405 raises.\<close>

definition exclusive_error :: error where
  "exclusive_error =
     UserError (''Input<> may not be used with Param<> or ImageParam in Generators.'' @ newline)"

text \<open>\<^verbatim>\<open>GeneratorBase::build_params\<close> (lines 377-420).\<close>

definition build_params :: "'v GeneratorBase \<Rightarrow> (error + unit) \<times> 'v GeneratorBase" where
  "build_params s =
     (if \<not> params_built s then
        (case add_filter_params (instances_in_range s FilterParam) s of
           (Inl e, s) \<Rightarrow> (Inl e, s)
         | (Inr _, s) \<Rightarrow>
        (case add_filter_inputs (instances_in_range s GeneratorInput) s of
           (Inl e, s) \<Rightarrow> (Inl e, s)
         | (Inr _, s) \<Rightarrow>
        if length (filter_params s) > 0 \<and> length (filter_inputs s) > 0 then
          (Inl exclusive_error, s)
        else
        (case add_generator_params (instances_in_range s GeneratorParam) s of
           (Inl e, s) \<Rightarrow> (Inl e, s)
         | (Inr _, s) \<Rightarrow> (Inr (), s\<lparr>params_built := True\<rparr>))))
      else (Inr (), s))"

text \<open>\<^verbatim>\<open>GeneratorBase::rebuild_params\<close> (lines 369-375).\<close>

definition rebuild_params :: "'v GeneratorBase \<Rightarrow> (error + unit) \<times> 'v GeneratorBase" where
  "rebuild_params s =
     build_params
       (s\<lparr>params_built := False, filter_inputs := [], filter_params := [],
          generator_params := Map.empty\<rparr>)"

text \<open>
  The names that the first loop accepts: explicit, valid, not the name of an earlier
  element, and not the name of a parameter recorded before the loop. The second loop
  accepts the same of the inputs, without the test of explicit names.
\<close>

definition filter_params_accepted :: "'v GeneratorBase \<Rightarrow> bool" where
  "filter_params_accepted s \<longleftrightarrow>
     (\<forall>v \<in> set (instances_in_range s FilterParam).
        v \<noteq> nullptr \<and> is_explicit_name (parameter_at s v) \<and>
        is_valid_name (parameter_name (parameter_at s v))) \<and>
     distinct (map (\<lambda>v. parameter_name (parameter_at s v)) (instances_in_range s FilterParam)) \<and>
     (\<forall>v \<in> set (instances_in_range s FilterParam). \<forall>p \<in> set (filter_params s).
        parameter_name (parameter_at s p) \<noteq> parameter_name (parameter_at s v))"

definition filter_inputs_accepted :: "'v GeneratorBase \<Rightarrow> bool" where
  "filter_inputs_accepted s \<longleftrightarrow>
     (\<forall>v \<in> set (instances_in_range s GeneratorInput).
        v \<noteq> nullptr \<and> is_valid_name (input_name (input_at s v))) \<and>
     distinct (map (\<lambda>v. input_name (input_at s v)) (instances_in_range s GeneratorInput)) \<and>
     (\<forall>v \<in> set (instances_in_range s GeneratorInput). \<forall>p \<in> set (filter_inputs s).
        input_name (input_at s p) \<noteq> input_name (input_at s v))"

text \<open>
  The map from the names of the declared configuration parameters to their
  addresses; of two with one name, the first.
\<close>

definition declared_generator_params :: "'v GeneratorBase \<Rightarrow> string \<rightharpoonup> addr" where
  "declared_generator_params s =
     (\<lambda>n. find (\<lambda>v. generator_param_name (generator_param_at s v) = n)
            (instances_in_range s GeneratorParam))"

text \<open>A number of \<^verbatim>\<open>build_params\<close> calls in a row, stopping at the first that raises.\<close>

fun build_params_times :: "nat \<Rightarrow> 'v GeneratorBase \<Rightarrow> (error + unit) \<times> 'v GeneratorBase" where
  "build_params_times 0 s = (Inr (), s)"
| "build_params_times (Suc n) s =
     (case build_params s of
        (Inl e, s) \<Rightarrow> (Inl e, s)
      | (Inr _, s) \<Rightarrow> build_params_times n s)"

text \<open>
  What \<^verbatim>\<open>Generator.cpp\<close> calls and does not define: the virtual \<^verbatim>\<open>from_string\<close> of a
  configuration parameter (it may raise, and may have written to the object by then);
  the conversions \<^verbatim>\<open>*type_param\<close> and \<^verbatim>\<open>*dimension_param\<close> of a configuration
  parameter to a type and to an integer; the virtual \<^verbatim>\<open>build_pipeline\<close> of the
  generator, which may write to the state; the member \<^verbatim>\<open>target\<close> read as a
  \<^verbatim>\<open>Target\<close>; and \<^verbatim>\<open>Pipeline::compile_to_module\<close>. The types of pipelines and of
  modules are left open.
\<close>

datatype LinkageType = External | Internal

record ('v, 'p, 'm) collaborators =
  from_string :: "'v GeneratorParamBase \<Rightarrow> string \<Rightarrow> (error + unit) \<times> 'v GeneratorParamBase"
  type_of_param :: "'v GeneratorParamBase \<Rightarrow> Type"
  int_of_param :: "'v GeneratorParamBase \<Rightarrow> int"
  build_pipeline :: "'v GeneratorBase \<Rightarrow> (error + 'p) \<times> 'v GeneratorBase"
  target_of :: "'v GeneratorBase \<Rightarrow> Target"
  compile_to_module :: "'p \<Rightarrow> Argument list \<Rightarrow> string \<Rightarrow> Target \<Rightarrow> LinkageType \<Rightarrow> error + 'm"

text \<open>
  \<^verbatim>\<open>GeneratorInputBase::init_internals\<close> (lines 505-527), as far as \<^verbatim>\<open>parameter_\<close>
  goes: a buffer input with a type or a dimension parameter gets a new
  \<^verbatim>\<open>parameter_\<close> of that type and dimension; a scalar input keeps its own.
\<close>

definition init_internals ::
  "('v, 'p, 'm) collaborators \<Rightarrow> 'v GeneratorBase \<Rightarrow> GeneratorInputBase \<Rightarrow> GeneratorInputBase"
  where
  "init_internals ext s input =
     (if is_buffer (input_parameter input) then
        (if type_param input \<noteq> nullptr \<and> dimension_param input \<noteq> nullptr then
           input\<lparr>input_parameter :=
             Parameter_new (type_of_param ext (generator_param_at s (type_param input))) True
               (int_of_param ext (generator_param_at s (dimension_param input)))
               (input_name input) True\<rparr>
         else if type_param input \<noteq> nullptr then
           input\<lparr>input_parameter :=
             Parameter_new (type_of_param ext (generator_param_at s (type_param input))) True
               (dimensions (input_parameter input)) (input_name input) True\<rparr>
         else if dimension_param input \<noteq> nullptr then
           input\<lparr>input_parameter :=
             Parameter_new (parameter_type (input_parameter input)) True
               (int_of_param ext (generator_param_at s (dimension_param input)))
               (input_name input) True\<rparr>
         else input)
      else input)"

text \<open>\<^verbatim>\<open>GeneratorBase::init_inputs\<close> (lines 457-461).\<close>

fun init_inputs_loop ::
  "('v, 'p, 'm) collaborators \<Rightarrow> addr list \<Rightarrow> 'v GeneratorBase \<Rightarrow> 'v GeneratorBase" where
  "init_inputs_loop ext [] s = s"
| "init_inputs_loop ext (input # rest) s =
     init_inputs_loop ext rest
       (s\<lparr>input_at := (input_at s)(input := init_internals ext s (input_at s input))\<rparr>)"

definition init_inputs ::
  "('v, 'p, 'm) collaborators \<Rightarrow> 'v GeneratorBase \<Rightarrow> 'v GeneratorBase" where
  "init_inputs ext s = init_inputs_loop ext (filter_inputs s) s"

text \<open>\<^verbatim>\<open>GeneratorBase::get_filter_arguments\<close> (lines 422-433).\<close>

definition get_filter_arguments ::
  "('v, 'p, 'm) collaborators \<Rightarrow> 'v GeneratorBase \<Rightarrow>
   (error + Argument list) \<times> 'v GeneratorBase" where
  "get_filter_arguments ext s =
     (case build_params s of
        (Inl e, s) \<Rightarrow> (Inl e, s)
      | (Inr _, s) \<Rightarrow>
     (let s = init_inputs ext s;
          arguments = [];
          arguments = arguments @
            map (\<lambda>param. to_argument (parameter_at s param)) (filter_params s);
          arguments = arguments @
            map (\<lambda>input. to_argument (input_parameter (input_at s input))) (filter_inputs s)
      in (Inr arguments, s)))"

text \<open>
  \<^verbatim>\<open>GeneratorParamValues\<close> is a \<^verbatim>\<open>std::map\<close> from names to values. A loop over it
  visits the entries in ascending order of the keys, each key once; the model holds
  the entries as the list in that order. \<^verbatim>\<open>map_assign\<close> is the assignment
  \<^verbatim>\<open>m[k] = v\<close>; the order of strings is the one of \<^verbatim>\<open>std::string\<close>, by bytes.
\<close>

type_synonym GeneratorParamValues = "(string \<times> string) list"

fun map_assign :: "string \<Rightarrow> 'a \<Rightarrow> (string \<times> 'a) list \<Rightarrow> (string \<times> 'a) list" where
  "map_assign k v [] = [(k, v)]"
| "map_assign k v ((k', v') # rest) =
     (if k < k' then (k, v) # (k', v') # rest
      else if k = k' then (k, v) # rest
      else (k', v') # map_assign k v rest)"

text \<open>
  The loop of \<^verbatim>\<open>set_generator_param_values\<close> (lines 447-454). When \<^verbatim>\<open>user_assert\<close>
  raises for a key, the keys before it have been applied.
\<close>

fun set_generator_param_values_loop ::
  "('v, 'p, 'm) collaborators \<Rightarrow> GeneratorParamValues \<Rightarrow> 'v GeneratorBase \<Rightarrow>
   (error + unit) \<times> 'v GeneratorBase" where
  "set_generator_param_values_loop ext [] s = (Inr (), s)"
| "set_generator_param_values_loop ext ((key, value) # rest) s =
     (case generator_params s key of
        None \<Rightarrow> (Inl (UserError (''Generator has no GeneratorParam named: '' @ key)), s)
      | Some param \<Rightarrow>
          (case from_string ext (generator_param_at s param) value of
             (Inl e, object) \<Rightarrow>
               (Inl e, s\<lparr>generator_param_at := (generator_param_at s)(param := object)\<rparr>)
           | (Inr _, object) \<Rightarrow>
               set_generator_param_values_loop ext rest
                 (s\<lparr>generator_param_at := (generator_param_at s)(param := object)\<rparr>)))"

text \<open>\<^verbatim>\<open>GeneratorBase::set_generator_param_values\<close> (lines 445-455).\<close>

definition set_generator_param_values ::
  "('v, 'p, 'm) collaborators \<Rightarrow> GeneratorParamValues \<Rightarrow> 'v GeneratorBase \<Rightarrow>
   (error + unit) \<times> 'v GeneratorBase" where
  "set_generator_param_values ext params s =
     (case build_params s of
        (Inl e, s) \<Rightarrow> (Inl e, s)
      | (Inr _, s) \<Rightarrow> set_generator_param_values_loop ext params s)"

text \<open>
  \<^verbatim>\<open>GeneratorBase::build_module\<close> (lines 476-485). C++ leaves open in which order the
  arguments of \<^verbatim>\<open>compile_to_module\<close> are evaluated; the model reads \<^verbatim>\<open>target\<close> after
  \<^verbatim>\<open>get_filter_arguments()\<close> has returned.
\<close>

definition build_module ::
  "('v, 'p, 'm) collaborators \<Rightarrow> string \<Rightarrow> LinkageType \<Rightarrow> 'v GeneratorBase \<Rightarrow>
   (error + 'm) \<times> 'v GeneratorBase" where
  "build_module ext function_name linkage_type s =
     (case build_params s of
        (Inl e, s) \<Rightarrow> (Inl e, s)
      | (Inr _, s) \<Rightarrow>
     (case build_pipeline ext s of
        (Inl e, s) \<Rightarrow> (Inl e, s)
      | (Inr pipeline, s) \<Rightarrow>
     (case (if length (filter_params s) > 0 then rebuild_params s else (Inr (), s)) of
        (Inl e, s) \<Rightarrow> (Inl e, s)
      | (Inr _, s) \<Rightarrow>
     (case get_filter_arguments ext s of
        (Inl e, s) \<Rightarrow> (Inl e, s)
      | (Inr arguments, s) \<Rightarrow>
          (compile_to_module ext pipeline arguments function_name (target_of ext s)
             linkage_type, s)))))"

text \<open>
  The Argument list of the parameters and inputs that are recorded in a state, as the
  two loops of \<^verbatim>\<open>get_filter_arguments\<close> build it.
\<close>

definition filter_arguments :: "'v GeneratorBase \<Rightarrow> Argument list" where
  "filter_arguments s =
     map (\<lambda>param. to_argument (parameter_at s param)) (filter_params s) @
     map (\<lambda>input. to_argument (input_parameter (input_at s input))) (filter_inputs s)"

text \<open>
  The members \<^verbatim>\<open>params_built\<close>, \<^verbatim>\<open>filter_inputs\<close>, \<^verbatim>\<open>filter_params\<close> and
  \<^verbatim>\<open>generator_params\<close> are the same in two states: what holds of the states before
  and after a \<^verbatim>\<open>build_pipeline\<close> that writes to the declared objects only.
\<close>

definition members_kept :: "'v GeneratorBase \<Rightarrow> 'v GeneratorBase \<Rightarrow> bool" where
  "members_kept s s' \<longleftrightarrow>
     params_built s' = params_built s \<and> filter_inputs s' = filter_inputs s \<and>
     filter_params s' = filter_params s \<and> generator_params s' = generator_params s"

subsection \<open>The registry of generators (lines 317-361)\<close>

text \<open>
  A generator is an instance together with the virtual functions of its class. A
  factory builds one from configuration values; it may raise, and it may return a
  null pointer (\<open>None\<close>). The registry is a \<^verbatim>\<open>std::map\<close> from names to factories, held
  as the list of its entries in ascending order of the names. The mutex is not
  modelled: the model runs one call at a time.
\<close>

type_synonym ('v, 'p, 'm) generator = "('v, 'p, 'm) collaborators \<times> 'v GeneratorBase"

type_synonym ('v, 'p, 'm) GeneratorFactory =
  "GeneratorParamValues \<Rightarrow> error + ('v, 'p, 'm) generator option"

record ('v, 'p, 'm) GeneratorRegistry =
  factories :: "(string \<times> ('v, 'p, 'm) GeneratorFactory) list"

definition register_factory ::
  "string \<Rightarrow> ('v, 'p, 'm) GeneratorFactory \<Rightarrow> ('v, 'p, 'm) GeneratorRegistry \<Rightarrow>
   error + ('v, 'p, 'm) GeneratorRegistry" where
  "register_factory name factory registry =
     (if \<not> is_valid_name name then Inl (UserError (''Invalid Generator name: '' @ name))
      else if map_of (factories registry) name \<noteq> None then
        Inl (InternalError (''Duplicate Generator name: '' @ name))
      else Inr (registry\<lparr>factories := map_assign name factory (factories registry)\<rparr>))"

definition unregister_factory ::
  "string \<Rightarrow> ('v, 'p, 'm) GeneratorRegistry \<Rightarrow> error + ('v, 'p, 'm) GeneratorRegistry" where
  "unregister_factory name registry =
     (if map_of (factories registry) name = None then
        Inl (InternalError (''Generator not found: '' @ name))
      else Inr (registry\<lparr>factories :=
        filter (\<lambda>entry. fst entry \<noteq> name) (factories registry)\<rparr>))"

definition create ::
  "('v, 'p, 'm) GeneratorRegistry \<Rightarrow> string \<Rightarrow> GeneratorParamValues \<Rightarrow>
   error + ('v, 'p, 'm) generator option" where
  "create registry name params =
     (case map_of (factories registry) name of
        None \<Rightarrow> Inl (UserError (''Generator not found: '' @ name))
      | Some factory \<Rightarrow> factory params)"

text \<open>\<^verbatim>\<open>GeneratorRegistry::enumerate\<close> (lines 353-361).\<close>

definition enumerate_names :: "('v, 'p, 'm) GeneratorRegistry \<Rightarrow> string list" where
  "enumerate_names registry = map fst (factories registry)"

subsection \<open>The command-line driver (lines 134-307)\<close>

text \<open>
  What the driver calls and \<^verbatim>\<open>Generator.cpp\<close> does not define: \<^verbatim>\<open>split_string\<close>, the
  simple name that \<^verbatim>\<open>extract_namespaces\<close> returns, the constructor of \<^verbatim>\<open>Target\<close> from
  a string (it may raise) and \<^verbatim>\<open>Target::to_string\<close>. The environment also holds the
  registry of the process.
\<close>

record ('v, 'p, 'm) environment =
  split_string :: "string \<Rightarrow> string \<Rightarrow> string list"
  extract_namespaces :: "string \<Rightarrow> string"
  Target_from_string :: "string \<Rightarrow> error + Target"
  Target_to_string :: "Target \<Rightarrow> string"
  generator_registry :: "('v, 'p, 'm) GeneratorRegistry"

text \<open>\<^verbatim>\<open>compute_base_path\<close> (lines 32-39).\<close>

definition compute_base_path ::
  "('v, 'p, 'm) environment \<Rightarrow> string \<Rightarrow> string \<Rightarrow> string \<Rightarrow> string" where
  "compute_base_path env output_dir function_name file_base_name =
     (let simple_name = extract_namespaces env function_name;
          base_path = output_dir @ ''/'' @
            (if file_base_name = [] then simple_name else file_base_name)
      in base_path)"

definition kUsage :: string where
  "kUsage =
     ''gengen [-g GENERATOR_NAME] [-f FUNCTION_NAME] [-o OUTPUT_DIR] [-r RUNTIME_NAME] '' @
     ''[-e EMIT_OPTIONS] [-x EXTENSION_OPTIONS] [-n FILE_BASE_NAME] '' @
     ''target=target-string[,target-string...] [generator_arg=value [...]]'' @ newline @
     newline @
     ''  -e  A comma separated list of files to emit. Accepted values are '' @
     ''[assembly, bitcode, cpp, h, html, o, static_library, stmt]. If omitted, default '' @
     ''value is [static_library, h].'' @ newline @
     ''  -x  A comma separated list of file extension pairs to substitute during file '' @
     ''naming, in the form [.old=.new[,.old2=.new2]]'' @ newline"

text \<open>
  \<^verbatim>\<open>flags_info\<close> and \<^verbatim>\<open>emit_options.extensions\<close> are maps that are only searched and
  assigned; \<^verbatim>\<open>m[k]\<close> of a key that is absent reads the empty string.
\<close>

definition flags_info_init :: "string \<rightharpoonup> string" where
  "flags_info_init =
     [''-f'' \<mapsto> [], ''-g'' \<mapsto> [], ''-o'' \<mapsto> [], ''-e'' \<mapsto> [], ''-n'' \<mapsto> [], ''-x'' \<mapsto> [],
      ''-r'' \<mapsto> []]"

definition map_at :: "(string \<rightharpoonup> string) \<Rightarrow> string \<Rightarrow> string" where
  "map_at m k = (case m k of Some v \<Rightarrow> v | None \<Rightarrow> [])"

definition entry_at :: "GeneratorParamValues \<Rightarrow> string \<Rightarrow> string" where
  "entry_at m k = (case map_of m k of Some v \<Rightarrow> v | None \<Rightarrow> [])"

text \<open>
  The loop over \<^verbatim>\<open>argv\<close> (lines 151-174), from the argument \<open>i\<close> on; every failure
  writes to \<^verbatim>\<open>cerr\<close> and returns 1, so the failure is what was written. An empty
  argument has the byte 0 for \<^verbatim>\<open>argv[i][0]\<close>, which is not '-'.
\<close>

fun parse_arguments ::
  "('v, 'p, 'm) environment \<Rightarrow> string list \<Rightarrow> (string \<rightharpoonup> string) \<times> GeneratorParamValues \<Rightarrow>
   string list + (string \<rightharpoonup> string) \<times> GeneratorParamValues" where
  "parse_arguments env [] (flags_info, generator_args) = Inr (flags_info, generator_args)"
| "parse_arguments env (arg # rest) (flags_info, generator_args) =
     (if (case arg of [] \<Rightarrow> True | c # _ \<Rightarrow> c \<noteq> CHR ''-'') then
        (let v = split_string env arg ''='' in
         if length v \<noteq> 2 \<or> v ! 0 = [] \<or> v ! 1 = [] then Inl [kUsage]
         else parse_arguments env rest (flags_info, map_assign (v ! 0) (v ! 1) generator_args))
      else
        (case flags_info arg of
           Some _ \<Rightarrow>
             (case rest of
                [] \<Rightarrow> Inl [kUsage]
              | value # rest \<Rightarrow>
                  parse_arguments env rest (flags_info(arg \<mapsto> value), generator_args))
         | None \<Rightarrow> Inl [''Unknown flag: '' @ arg @ newline, kUsage]))"

text \<open>
  Modelled from the spec: the constructor of \<^verbatim>\<open>GeneratorBase::EmitOptions\<close> is in
  \<^verbatim>\<open>Generator.h\<close>, which is missing. "Default when unspecified by the caller:
  {static-library, header} = true, all others false" (section 3).
\<close>

definition EmitOptions_default :: EmitOptions where
  "EmitOptions_default =
     \<lparr>emit_o = False, emit_h = True, emit_cpp = False, emit_assembly = False,
      emit_bitcode = False, emit_stmt = False, emit_stmt_html = False,
      emit_static_library = True, extensions = Map.empty\<rparr>"

text \<open>The loop over \<^verbatim>\<open>emit_flags\<close> (lines 227-248), with what it writes to \<^verbatim>\<open>cerr\<close>.\<close>

fun emit_flags_loop ::
  "string list \<Rightarrow> EmitOptions \<times> string list \<Rightarrow> EmitOptions \<times> string list" where
  "emit_flags_loop [] (emit_options, err) = (emit_options, err)"
| "emit_flags_loop (opt # rest) (emit_options, err) =
     (if opt = ''assembly'' then
        emit_flags_loop rest (emit_options\<lparr>emit_assembly := True\<rparr>, err)
      else if opt = ''bitcode'' then
        emit_flags_loop rest (emit_options\<lparr>emit_bitcode := True\<rparr>, err)
      else if opt = ''stmt'' then
        emit_flags_loop rest (emit_options\<lparr>emit_stmt := True\<rparr>, err)
      else if opt = ''html'' then
        emit_flags_loop rest (emit_options\<lparr>emit_stmt_html := True\<rparr>, err)
      else if opt = ''cpp'' then
        emit_flags_loop rest (emit_options\<lparr>emit_cpp := True\<rparr>, err)
      else if opt = ''o'' then
        emit_flags_loop rest (emit_options\<lparr>emit_o := True\<rparr>, err)
      else if opt = ''h'' then
        emit_flags_loop rest (emit_options\<lparr>emit_h := True\<rparr>, err)
      else if opt = ''static_library'' then
        emit_flags_loop rest (emit_options\<lparr>emit_static_library := True\<rparr>, err)
      else if opt \<noteq> [] then
        emit_flags_loop rest
          (emit_options,
           err @ [''Unrecognized emit option: '' @ opt @
             '' not one of [assembly, bitcode, cpp, h, html, o, static_library, stmt], '' @
             ''ignoring.'' @ newline])
      else emit_flags_loop rest (emit_options, err))"

text \<open>The loop over \<^verbatim>\<open>extension_flags\<close> (lines 252-263).\<close>

fun extension_flags_loop ::
  "('v, 'p, 'm) environment \<Rightarrow> string list \<Rightarrow> EmitOptions \<Rightarrow> string list + EmitOptions" where
  "extension_flags_loop env [] emit_options = Inr emit_options"
| "extension_flags_loop env (x # rest) emit_options =
     (if x = [] then extension_flags_loop env rest emit_options
      else
        (let ext_pair = split_string env x ''='' in
         if length ext_pair \<noteq> 2 then Inl [''Malformed -x option: '' @ x @ newline, kUsage]
         else extension_flags_loop env rest
           (emit_options\<lparr>extensions :=
              (extensions emit_options)(ext_pair ! 0 \<mapsto> ext_pair ! 1)\<rparr>)))"

text \<open>The loop over \<^verbatim>\<open>target_strings\<close> (lines 268-270).\<close>

fun make_targets ::
  "('v, 'p, 'm) environment \<Rightarrow> string list \<Rightarrow> Target list \<Rightarrow> error + Target list" where
  "make_targets env [] targets = Inr targets"
| "make_targets env (s # rest) targets =
     (case Target_from_string env s of
        Inl e \<Rightarrow> Inl e
      | Inr t \<Rightarrow> make_targets env rest (targets @ [t]))"

text \<open>
  What a run of the driver does: how it ends, what it wrote to \<^verbatim>\<open>cerr\<close>, and the calls
  it made to the compilation services, in order, with their arguments. The services
  are taken to return. A module producer ends with a module, with \<^verbatim>\<open>exit\<close> or with an
  error raised.
\<close>

datatype 'm produced = Module 'm | Exits int "string list" | Throws error

datatype 'm call =
    compile_standalone_runtime Outputs Target
  | compile_multitarget string Outputs "Target list" "string \<Rightarrow> Target \<Rightarrow> 'm produced"
  | Module_compile 'm Outputs

datatype status = Returned int | Exited int | Uncaught error | Out_of_range

record 'm run =
  status :: status
  cerr :: "string list"
  calls :: "'m call list"

text \<open>
  The closure \<^verbatim>\<open>module_producer\<close> (lines 285-296) with what it captures.
  \<^verbatim>\<open>build_module(name)\<close> takes the default linkage of its declaration, external.
\<close>

definition module_producer ::
  "('v, 'p, 'm) environment \<Rightarrow> string \<Rightarrow> GeneratorParamValues \<Rightarrow> string \<Rightarrow> Target \<Rightarrow>
   'm produced" where
  "module_producer env generator_name generator_args name target =
     (let sub_generator_args = generator_args;
          sub_generator_args =
            map_assign ''target'' (Target_to_string env target) sub_generator_args
      in case create (generator_registry env) generator_name sub_generator_args of
           Inl e \<Rightarrow> Throws e
         | Inr None \<Rightarrow> Exits 1 [''Unknown generator: '' @ generator_name @ newline]
         | Inr (Some (ext, gen)) \<Rightarrow>
             (case fst (build_module ext name External gen) of
                Inl e \<Rightarrow> Throws e
              | Inr m \<Rightarrow> Module m))"

text \<open>
  Lines 272-306: the standalone runtime, then the generator. \<^verbatim>\<open>targets[0]\<close> of an
  empty vector is outside the vector; the model ends the run there.
\<close>

definition compile_targets ::
  "('v, 'p, 'm) environment \<Rightarrow> string \<Rightarrow> string \<Rightarrow> string \<Rightarrow> string \<Rightarrow> string \<Rightarrow>
   EmitOptions \<Rightarrow> GeneratorParamValues \<Rightarrow> Target list \<Rightarrow> string list \<Rightarrow> 'm run" where
  "compile_targets env runtime_name generator_name function_name output_dir file_base_name
     emit_options generator_args targets err =
     (if runtime_name \<noteq> [] \<and> length targets \<noteq> 1 then
        \<lparr>status = Returned 1, cerr = err @ [''Only one target allowed here''], calls = []\<rparr>
      else
        (let done =
           (if runtime_name \<noteq> [] then
              (let base_path = compute_base_path env output_dir runtime_name [];
                   output_files = compute_outputs (targets ! 0) base_path emit_options
               in [compile_standalone_runtime output_files (targets ! 0)])
            else [])
         in if generator_name \<noteq> [] then
              (if targets = [] then \<lparr>status = Out_of_range, cerr = err, calls = done\<rparr>
               else
                 (let base_path = compute_base_path env output_dir function_name file_base_name;
                      output_files = compute_outputs (targets ! 0) base_path emit_options
                  in if length targets > 1 then
                       \<lparr>status = Returned 0, cerr = err,
                        calls = done @
                          [compile_multitarget function_name output_files targets
                             (module_producer env generator_name generator_args)]\<rparr>
                     else
                       (case module_producer env generator_name generator_args function_name
                               (targets ! 0) of
                          Module m \<Rightarrow>
                            \<lparr>status = Returned 0, cerr = err,
                             calls = done @ [Module_compile m output_files]\<rparr>
                        | Exits code msg \<Rightarrow>
                            \<lparr>status = Exited code, cerr = err @ msg, calls = done\<rparr>
                        | Throws e \<Rightarrow> \<lparr>status = Uncaught e, cerr = err, calls = done\<rparr>)))
            else \<lparr>status = Returned 0, cerr = err, calls = done\<rparr>))"

text \<open>
  Lines 217-263: the emit options from the flag \<^verbatim>\<open>-e\<close> and the extension table from
  the flag \<^verbatim>\<open>-x\<close>, with what was written to \<^verbatim>\<open>cerr\<close> on the way. A malformed
  \<^verbatim>\<open>-x\<close> option ends the run; the result is then what it wrote.
\<close>

definition make_emit_options ::
  "('v, 'p, 'm) environment \<Rightarrow> (string \<rightharpoonup> string) \<Rightarrow> string list \<times> (string list + EmitOptions)"
  where
  "make_emit_options env flags_info =
     (let emit_options = EmitOptions_default;
          emit_options = emit_options\<lparr>emit_static_library := False, emit_h := False\<rparr>;
          emit_flags = split_string env (map_at flags_info ''-e'') '','';
          (emit_options, err) =
            (if emit_flags = [] \<or> (length emit_flags = 1 \<and> emit_flags ! 0 = []) then
               (emit_options\<lparr>emit_static_library := True, emit_h := True\<rparr>, [])
             else emit_flags_loop emit_flags (emit_options, []));
          extension_flags = split_string env (map_at flags_info ''-x'') '',''
      in (err, extension_flags_loop env extension_flags emit_options))"

text \<open>
  Lines 198-270, once the names of the runtime and of the generator are resolved: the
  function name, the output directory, the target argument, the emit options and the
  targets; then lines 272-306.
\<close>

definition generate_files ::
  "('v, 'p, 'm) environment \<Rightarrow> (string \<rightharpoonup> string) \<Rightarrow> GeneratorParamValues \<Rightarrow> string \<Rightarrow>
   string \<Rightarrow> 'm run" where
  "generate_files env flags_info generator_args runtime_name generator_name =
     (let function_name = map_at flags_info ''-f'';
          function_name = (if function_name = [] then generator_name else function_name);
          output_dir = map_at flags_info ''-o''
      in if output_dir = [] then
           \<lparr>status = Returned 1, cerr = [''-o must always be specified.'' @ newline, kUsage],
            calls = []\<rparr>
         else if map_of generator_args ''target'' = None then
           \<lparr>status = Returned 1, cerr = [''Target missing'' @ newline, kUsage], calls = []\<rparr>
         else
           (let file_base_name = map_at flags_info ''-n'' in
            case make_emit_options env flags_info of
              (err, Inl msg) \<Rightarrow> \<lparr>status = Returned 1, cerr = err @ msg, calls = []\<rparr>
            | (err, Inr emit_options) \<Rightarrow>
                (let target_string = entry_at generator_args ''target'';
                     target_strings = split_string env target_string '',''
                 in case make_targets env target_strings [] of
                      Inl e \<Rightarrow> \<lparr>status = Uncaught e, cerr = err, calls = []\<rparr>
                    | Inr targets \<Rightarrow>
                        compile_targets env runtime_name generator_name function_name
                          output_dir file_base_name emit_options generator_args targets
                          err)))"

text \<open>
  \<^verbatim>\<open>generate_filter_main\<close>: the arguments (lines 142-174), the names of the runtime and
  of the generator (lines 176-197), then the rest.
\<close>

definition generate_filter_main :: "('v, 'p, 'm) environment \<Rightarrow> string list \<Rightarrow> 'm run" where
  "generate_filter_main env argv =
     (case parse_arguments env (drop 1 argv) (flags_info_init, []) of
        Inl msg \<Rightarrow> \<lparr>status = Returned 1, cerr = msg, calls = []\<rparr>
      | Inr (flags_info, generator_args) \<Rightarrow>
          (let runtime_name = map_at flags_info ''-r'';
               generator_names = enumerate_names (generator_registry env)
           in if length generator_names = 0 \<and> runtime_name = [] then
                \<lparr>status = Returned 1,
                 cerr = [''No generators have been registered and not compiling a '' @
                           ''standalone runtime'' @ newline, kUsage],
                 calls = []\<rparr>
              else
                (let generator_name = map_at flags_info ''-g'' in
                 if generator_name = [] \<and> runtime_name = [] then
                   (if length generator_names > 1 then
                      \<lparr>status = Returned 1,
                       cerr = [''-g must be specified if multiple generators are registered:''
                                 @ newline] @
                              map (\<lambda>name. ''    '' @ name @ newline) generator_names @
                              [kUsage],
                       calls = []\<rparr>
                    else
                      (let generator_name = generator_names ! 0 in
                       generate_files env flags_info generator_args runtime_name
                         generator_name))
                 else generate_files env flags_info generator_args runtime_name
                        generator_name)))"


subsection \<open>A generator to run the model on\<close>

text \<open>
  Modelled from the spec: \<^verbatim>\<open>GeneratorParam<int>::from_string\<close> is in \<^verbatim>\<open>Generator.h\<close>,
  which is missing. A configuration parameter is updated "by parsing the string form"
  (section 4.4); the example parses a decimal number, raises a user error on anything
  else, and leaves the object as it was when it raises.
\<close>

fun digits_to_nat :: "nat \<Rightarrow> string \<Rightarrow> nat option" where
  "digits_to_nat acc [] = Some acc"
| "digits_to_nat acc (c # cs) =
     (if CHR ''0'' \<le> c \<and> c \<le> CHR ''9'' then
        digits_to_nat (10 * acc + (of_char c - 48)) cs
      else None)"

definition int_from_string ::
  "int GeneratorParamBase \<Rightarrow> string \<Rightarrow> (error + unit) \<times> int GeneratorParamBase" where
  "int_from_string object text =
     (case (if text = [] then None else digits_to_nat 0 text) of
        None \<Rightarrow> (Inl (UserError (''Unable to parse: '' @ text)), object)
      | Some n \<Rightarrow> (Inr (), object\<lparr>generator_param_value := int n\<rparr>))"

text \<open>
  The other functions of the example class: the pipeline is a number and building it
  leaves the state alone; the target is a Linux target; a module is the arguments it
  was compiled from.
\<close>

type_synonym example_module = "nat \<times> Argument list \<times> string \<times> Target \<times> LinkageType"

definition example_class :: "(int, nat, example_module) collaborators" where
  "example_class =
     \<lparr>from_string = int_from_string,
      type_of_param = (\<lambda>object. Halide_Int 32),
      int_of_param = generator_param_value,
      build_pipeline = (\<lambda>s. (Inr 7, s)),
      target_of = (\<lambda>s. \<lparr>os = Linux, arch = OtherArch 1, features = {}\<rparr>),
      compile_to_module = (\<lambda>pipeline arguments function_name target linkage_type.
        Inr (pipeline, arguments, function_name, target, linkage_type))\<rparr>"

text \<open>
  Three instances of the class. Each declares the configuration parameter "w", with
  value 0, at address 30. The first also declares the free parameter "a" at address
  10 and the input "b" at address 20; the second only the free parameter; the third only
  the input.
\<close>

definition example_parameter :: Parameter where
  "example_parameter = Parameter_new (Halide_Int 32) False 0 ''a'' True"

definition example_input :: GeneratorInputBase where
  "example_input =
     \<lparr>input_parameter = Parameter_new (Halide_Int 32) False 0 ''b'' True,
      type_param = nullptr, dimension_param = nullptr\<rparr>"

definition example_generator_param :: "int GeneratorParamBase" where
  "example_generator_param = \<lparr>generator_param_name = ''w'', generator_param_value = 0\<rparr>"

definition example_with_both :: "int GeneratorBase" where
  "example_with_both =
     GeneratorBase_new
       (\<lambda>kind. case kind of FilterParam \<Rightarrow> [10] | GeneratorInput \<Rightarrow> [20] | GeneratorParam \<Rightarrow> [30])
       (\<lambda>a. example_parameter) (\<lambda>a. example_input) (\<lambda>a. example_generator_param)"

definition example_with_param :: "int GeneratorBase" where
  "example_with_param =
     GeneratorBase_new
       (\<lambda>kind. case kind of FilterParam \<Rightarrow> [10] | GeneratorInput \<Rightarrow> [] | GeneratorParam \<Rightarrow> [30])
       (\<lambda>a. example_parameter) (\<lambda>a. example_input) (\<lambda>a. example_generator_param)"

definition example_with_input :: "int GeneratorBase" where
  "example_with_input =
     GeneratorBase_new
       (\<lambda>kind. case kind of FilterParam \<Rightarrow> [] | GeneratorInput \<Rightarrow> [20] | GeneratorParam \<Rightarrow> [30])
       (\<lambda>a. example_parameter) (\<lambda>a. example_input) (\<lambda>a. example_generator_param)"

text \<open>
  The third instance after its discovery, with the free parameter "a" declared at
  address 10 only then: the input is recorded, the free parameter is declared and not
  recorded, and \<^verbatim>\<open>params_built\<close> is set.
\<close>

definition example_late_param :: "int GeneratorBase" where
  "example_late_param =
     (snd (build_params example_with_input))
       \<lparr>instances_in_range := instances_in_range example_with_both\<rparr>"

text \<open>
  The example class with a \<^verbatim>\<open>build_pipeline\<close> that declares the free parameter "a":
  run on the third instance after its discovery, it leaves the instance above.
\<close>

definition example_class_declaring :: "(int, nat, example_module) collaborators" where
  "example_class_declaring =
     example_class
       \<lparr>build_pipeline :=
          (\<lambda>s. (Inr 7, s\<lparr>instances_in_range := instances_in_range example_with_both\<rparr>))\<rparr>"

text \<open>
  An instance with the input and two configuration parameters: "w" at address 30 and
  "y" at address 40, both with value 0.
\<close>

definition example_second_generator_param :: "int GeneratorParamBase" where
  "example_second_generator_param = \<lparr>generator_param_name = ''y'', generator_param_value = 0\<rparr>"

definition example_with_two_settings :: "int GeneratorBase" where
  "example_with_two_settings =
     GeneratorBase_new
       (\<lambda>kind. case kind of FilterParam \<Rightarrow> [] | GeneratorInput \<Rightarrow> [20]
          | GeneratorParam \<Rightarrow> [30, 40])
       (\<lambda>a. example_parameter) (\<lambda>a. example_input)
       (\<lambda>a. if a = 40 then example_second_generator_param else example_generator_param)"

text \<open>
  Modelled from the spec: \<^verbatim>\<open>split_string\<close> is in \<^verbatim>\<open>Util.cpp\<close>, which is missing. The
  command line holds "comma-separated" lists and arguments "of form key=value"
  (section 6); the example splits at every occurrence of a delimiter of one
  character, keeps the order and keeps the empty pieces.
\<close>

fun split_on :: "char \<Rightarrow> string \<Rightarrow> string list" where
  "split_on d [] = [[]]"
| "split_on d (c # cs) =
     (if c = d then [] # split_on d cs
      else (case split_on d cs of [] \<Rightarrow> [[c]] | piece # pieces \<Rightarrow> (c # piece) # pieces))"

definition example_split_string :: "string \<Rightarrow> string \<Rightarrow> string list" where
  "example_split_string source delim =
     (case delim of [] \<Rightarrow> [source] | d # _ \<Rightarrow> split_on d source)"

text \<open>
  An environment: two targets with their strings, the simple name as what follows
  the last colon, and a registry with the one generator "myfilt". Its factory hands
  out the third instance above after giving it the configuration values; the target
  of the example class is fixed, so the factory leaves the key "target" out.
\<close>

definition linux_target :: Target where
  "linux_target = \<lparr>os = Linux, arch = OtherArch 1, features = {}\<rparr>"

definition windows_target :: Target where
  "windows_target = \<lparr>os = Windows, arch = OtherArch 1, features = {}\<rparr>"

definition example_Target_from_string :: "string \<Rightarrow> error + Target" where
  "example_Target_from_string text =
     (if text = ''host'' \<or> text = ''x86-64-linux'' then Inr linux_target
      else if text = ''x86-64-windows'' then Inr windows_target
      else Inl (UserError (''Did not understand Halide target '' @ text)))"

definition example_Target_to_string :: "Target \<Rightarrow> string" where
  "example_Target_to_string t = (if os t = Windows then ''x86-64-windows'' else ''x86-64-linux'')"

definition example_factory :: "(int, nat, example_module) GeneratorFactory" where
  "example_factory params =
     (case set_generator_param_values example_class
             (filter (\<lambda>entry. fst entry \<noteq> ''target'') params) example_with_input of
        (Inl e, s) \<Rightarrow> Inl e
      | (Inr _, s) \<Rightarrow> Inr (Some (example_class, s)))"

definition example_environment :: "(int, nat, example_module) environment" where
  "example_environment =
     \<lparr>split_string = example_split_string,
      extract_namespaces = (\<lambda>name. last (split_on (CHR '':'') name)),
      Target_from_string = example_Target_from_string,
      Target_to_string = example_Target_to_string,
      generator_registry = \<lparr>factories = [(''myfilt'', example_factory)]\<rparr>\<rparr>"


section \<open>Properties\<close>

subsection \<open>Name validation\<close>

lemma char_eq_code: "(c = d) = ((of_char c :: nat) = of_char d)"
  by simp

lemma upper_case_chars:
  "CHR ''A'' \<le> c \<and> c \<le> CHR ''Z'' \<longleftrightarrow> c \<in> set ''ABCDEFGHIJKLMNOPQRSTUVWXYZ''"
proof -
  obtain n :: nat where n: "of_char c = n" by simp
  show ?thesis
    unfolding list.set insert_iff empty_iff less_eq_char_def char_eq_code [of c] n
    by simp presburger
qed

lemma lower_case_chars:
  "CHR ''a'' \<le> c \<and> c \<le> CHR ''z'' \<longleftrightarrow> c \<in> set ''abcdefghijklmnopqrstuvwxyz''"
proof -
  obtain n :: nat where n: "of_char c = n" by simp
  show ?thesis
    unfolding list.set insert_iff empty_iff less_eq_char_def char_eq_code [of c] n
    by simp presburger
qed

lemma digit_chars: "CHR ''0'' \<le> c \<and> c \<le> CHR ''9'' \<longleftrightarrow> ascii_digit c"
proof -
  obtain n :: nat where n: "of_char c = n" by simp
  show ?thesis
    unfolding ascii_digit_def list.set insert_iff empty_iff less_eq_char_def
      char_eq_code [of c] n
    by simp presburger
qed

lemma is_alpha_ascii_letter: "is_alpha c = ascii_letter c"
proof -
  have "ascii_letter c \<longleftrightarrow>
      c \<in> set ''ABCDEFGHIJKLMNOPQRSTUVWXYZ'' \<or> c \<in> set ''abcdefghijklmnopqrstuvwxyz''"
  proof -
    have "''ABCDEFGHIJKLMNOPQRSTUVWXYZabcdefghijklmnopqrstuvwxyz'' =
        ''ABCDEFGHIJKLMNOPQRSTUVWXYZ'' @ ''abcdefghijklmnopqrstuvwxyz''"
      by simp
    then show ?thesis
      unfolding ascii_letter_def by (simp only: set_append Un_iff)
  qed
  then show ?thesis
    using upper_case_chars [of c] lower_case_chars [of c] unfolding is_alpha_def by blast
qed

lemma is_alnum_name_char: "is_alnum c = name_char c"
  unfolding is_alnum_def name_char_def is_alpha_ascii_letter using digit_chars [of c] by blast

text \<open>Reading the byte as a signed \<^verbatim>\<open>char\<close> gives the same letters.\<close>

lemma is_alpha_signed_char:
  "is_alpha c \<longleftrightarrow>
     (signed_char_value c \<ge> 65 \<and> signed_char_value c \<le> 90) \<or>
     (signed_char_value c \<ge> 97 \<and> signed_char_value c \<le> 122)"
proof -
  obtain n :: nat where n: "of_char c = n" by simp
  have "n < 256" using n of_char_mod_256 [of c, where ?'a = nat]
    by (metis mod_less_divisor zero_less_numeral)
  then show ?thesis
    unfolding is_alpha_def signed_char_value_def less_eq_char_def n by simp
qed

text \<open>What the loop checks: every index from \<open>i\<close> on passes both tests.\<close>

lemma is_valid_name_loop_iff:
  "is_valid_name_loop n i \<longleftrightarrow>
     (\<forall>j. i \<le> j \<and> j < length n \<longrightarrow>
        is_alnum (n ! j) \<and> \<not> (n ! j = CHR ''_'' \<and> n ! (j - 1) = CHR ''_''))"
proof (induction n i rule: is_valid_name_loop.induct)
  case (1 n i)
  let ?ok = "\<lambda>j. is_alnum (n ! j) \<and> \<not> (n ! j = CHR ''_'' \<and> n ! (j - 1) = CHR ''_'')"
  define A where "A \<longleftrightarrow> (\<forall>j. i \<le> j \<and> j < length n \<longrightarrow> ?ok j)"
  define B where "B \<longleftrightarrow> (\<forall>j. i + 1 \<le> j \<and> j < length n \<longrightarrow> ?ok j)"
  note unfold = is_valid_name_loop.simps [of n i]
  have "is_valid_name_loop n i \<longleftrightarrow> A"
  proof (cases "i < length n")
    case False
    then have "is_valid_name_loop n i" by (subst unfold) simp
    moreover have A unfolding A_def using False by auto
    ultimately show ?thesis by simp
  next
    case True
    have AB: "A \<longleftrightarrow> ?ok i \<and> B"
    proof
      assume A
      then have all: "\<And>j. i \<le> j \<Longrightarrow> j < length n \<Longrightarrow> ?ok j" unfolding A_def by simp
      have "?ok i" using all [of i] True by simp
      moreover have B unfolding B_def using all by simp
      ultimately show "?ok i \<and> B" ..
    next
      assume h: "?ok i \<and> B"
      then have B: "\<And>j. i + 1 \<le> j \<Longrightarrow> j < length n \<Longrightarrow> ?ok j" unfolding B_def by simp
      show A unfolding A_def
      proof (intro allI impI)
        fix j assume j: "i \<le> j \<and> j < length n"
        show "?ok j"
        proof (cases "j = i")
          case True
          then show ?thesis using h by simp
        next
          case False
          then show ?thesis using j B [of j] by simp
        qed
      qed
    qed
    show ?thesis
    proof (cases "?ok i")
      case False
      then have "\<not> is_valid_name_loop n i" using True by (subst unfold) auto
      then show ?thesis using AB False by simp
    next
      case ok: True
      have step: "is_valid_name_loop n i = is_valid_name_loop n (i + 1)"
        by (subst unfold) (use True ok in auto)
      have "is_valid_name_loop n (i + 1) = B"
        unfolding B_def by (rule "1.IH") (use True ok in simp_all)
      then show ?thesis using step AB ok by simp
    qed
  qed
  then show ?case unfolding A_def .
qed

lemma contains_double_underscore_iff:
  "contains_double_underscore s \<longleftrightarrow>
     (\<exists>j. 0 < j \<and> j < length s \<and> s ! j = CHR ''_'' \<and> s ! (j - 1) = CHR ''_'')"
proof
  assume "contains_double_underscore s"
  then obtain i where i: "i < length s - 1" "s ! i = CHR ''_''" "s ! (i + 1) = CHR ''_''"
    unfolding contains_double_underscore_def by blast
  have "0 < Suc i \<and> Suc i < length s \<and> s ! Suc i = CHR ''_'' \<and> s ! (Suc i - 1) = CHR ''_''"
    using i by simp
  then show "\<exists>j. 0 < j \<and> j < length s \<and> s ! j = CHR ''_'' \<and> s ! (j - 1) = CHR ''_''"
    by (rule exI)
next
  assume "\<exists>j. 0 < j \<and> j < length s \<and> s ! j = CHR ''_'' \<and> s ! (j - 1) = CHR ''_''"
  then obtain j where j: "0 < j" "j < length s" "s ! j = CHR ''_''" "s ! (j - 1) = CHR ''_''"
    by blast
  then obtain k where k: "j = Suc k" by (cases j) simp_all
  have "k < length s - 1 \<and> s ! k = CHR ''_'' \<and> s ! (k + 1) = CHR ''_''"
    using j k by simp
  then show "contains_double_underscore s"
    unfolding contains_double_underscore_def by (intro exI [of _ k]) simp
qed

lemma tail_chars_iff:
  "(\<forall>c \<in> set (tl s). P c) \<longleftrightarrow> (\<forall>j. 0 < j \<and> j < length s \<longrightarrow> P (s ! j))"
proof (cases s)
  case Nil
  then show ?thesis by simp
next
  case (Cons x xs)
  have "(\<forall>c \<in> set xs. P c) \<longleftrightarrow> (\<forall>k. k < length xs \<longrightarrow> P (xs ! k))"
    by (simp add: all_set_conv_all_nth)
  also have "\<dots> \<longleftrightarrow> (\<forall>j. 0 < j \<and> j < length (x # xs) \<longrightarrow> P ((x # xs) ! j))"
  proof
    assume h: "\<forall>k. k < length xs \<longrightarrow> P (xs ! k)"
    show "\<forall>j. 0 < j \<and> j < length (x # xs) \<longrightarrow> P ((x # xs) ! j)"
    proof (intro allI impI)
      fix j assume "0 < j \<and> j < length (x # xs)"
      then obtain k where "j = Suc k" "k < length xs" by (cases j) auto
      then show "P ((x # xs) ! j)" using h by simp
    qed
  next
    assume h: "\<forall>j. 0 < j \<and> j < length (x # xs) \<longrightarrow> P ((x # xs) ! j)"
    show "\<forall>k. k < length xs \<longrightarrow> P (xs ! k)"
    proof (intro allI impI)
      fix k assume "k < length xs"
      then have "0 < Suc k \<and> Suc k < length (x # xs)" by simp
      with h have "P ((x # xs) ! Suc k)" by (rule_tac mp [OF spec [OF h]])
      then show "P (xs ! k)" by simp
    qed
  qed
  finally show ?thesis using Cons by simp
qed

lemma is_valid_name_iff_spec: "is_valid_name s \<longleftrightarrow> valid_name_spec s"
proof (cases "s = []")
  case True
  then show ?thesis by (simp add: is_valid_name_def valid_name_spec_def)
next
  case False
  then have hd: "s ! 0 = hd s" by (simp add: hd_conv_nth)
  define P where "P \<longleftrightarrow> (\<forall>j. 0 < j \<and> j < length s \<longrightarrow> is_alnum (s ! j))"
  define Q where
    "Q \<longleftrightarrow> (\<exists>j. 0 < j \<and> j < length s \<and> s ! j = CHR ''_'' \<and> s ! (j - 1) = CHR ''_'')"
  have "is_valid_name_loop s 1 \<longleftrightarrow>
      (\<forall>j. 0 < j \<and> j < length s \<longrightarrow>
         is_alnum (s ! j) \<and> \<not> (s ! j = CHR ''_'' \<and> s ! (j - 1) = CHR ''_''))"
    unfolding is_valid_name_loop_iff by (simp add: Suc_le_eq)
  also have "\<dots> \<longleftrightarrow> P \<and> \<not> Q" unfolding P_def Q_def by blast
  finally have loop: "is_valid_name_loop s 1 \<longleftrightarrow> P \<and> \<not> Q" .
  have P: "P \<longleftrightarrow> (\<forall>c \<in> set (tl s). name_char c)"
    unfolding P_def is_alnum_name_char by (rule tail_chars_iff [symmetric])
  have Q: "Q \<longleftrightarrow> contains_double_underscore s"
    unfolding Q_def by (rule contains_double_underscore_iff [symmetric])
  have "is_valid_name s \<longleftrightarrow> is_alpha (hd s) \<and> is_valid_name_loop s 1"
    using False hd by (simp add: is_valid_name_def)
  then show ?thesis
    unfolding valid_name_spec_def loop P Q is_alpha_ascii_letter using False by simp
qed

lemmas is_valid_name_eval =
  is_valid_name_def is_valid_name_loop.simps is_alpha_def is_alnum_def

text \<open>
  Claim C1. \<^verbatim>\<open>is_valid_name(s)\<close> is true exactly when \<open>s\<close> is non-empty, starts with an
  ASCII letter, continues with ASCII letters, digits and underscores only, and holds
  no two consecutive underscores. In particular it is false when \<open>s\<close> is empty, starts
  with a non-letter, holds a character outside [A-Za-z0-9_], or holds "__".
\<close>

theorem is_valid_name_correct:
  "(is_valid_name s \<longleftrightarrow> valid_name_spec s) \<and>
   (s = [] \<or> \<not> ascii_letter (hd s) \<or> (\<exists>c \<in> set s. \<not> name_char c) \<or>
      contains_double_underscore s \<longrightarrow> \<not> is_valid_name s)"
proof (intro conjI impI)
  show "is_valid_name s \<longleftrightarrow> valid_name_spec s" by (rule is_valid_name_iff_spec)
next
  assume bad: "s = [] \<or> \<not> ascii_letter (hd s) \<or> (\<exists>c \<in> set s. \<not> name_char c) \<or>
      contains_double_underscore s"
  show "\<not> is_valid_name s"
  proof
    assume "is_valid_name s"
    then have v: "s \<noteq> []" "ascii_letter (hd s)" "\<forall>c \<in> set (tl s). name_char c"
        "\<not> contains_double_underscore s"
      unfolding is_valid_name_iff_spec valid_name_spec_def by simp_all
    have "set s = insert (hd s) (set (tl s))" using v(1) by (cases s) simp_all
    then have "\<forall>c \<in> set s. name_char c" using v(2,3) by (simp add: name_char_def)
    then show False using bad v by blast
  qed
qed

theorem is_valid_name_correct_witness:
  "is_valid_name ''a_b1'' \<and> valid_name_spec ''a_b1'' \<and>
   contains_double_underscore ''a__b'' \<and> \<not> is_valid_name ''a__b'' \<and>
   \<not> ascii_letter (hd ''_ab'') \<and> \<not> is_valid_name ''_ab''"
proof -
  have 1: "is_valid_name ''a_b1''" by (simp add: is_valid_name_eval)
  have 2: "contains_double_underscore ''a__b''"
    unfolding contains_double_underscore_def by (intro exI [of _ 1]) simp
  have 3: "\<not> ascii_letter (hd ''_ab'')" by (simp add: ascii_letter_def)
  show ?thesis
    using 1 2 3 is_valid_name_correct [of "''a_b1''"] is_valid_name_correct [of "''a__b''"]
      is_valid_name_correct [of "''_ab''"]
    by blast
qed

subsection \<open>The artifact planner\<close>

lemmas compute_outputs_eval =
  compute_outputs_def get_extension_def has_feature_def Outputs_default_def Let_def

text \<open>
  Claim C2. With an empty extension table and every kind requested: the object
  extension is ".bc" whenever the architecture is PNaCl, whatever the operating
  system; for the other architectures it is ".obj" on Windows without MinGW and ".o"
  on Linux. The static library extension is ".lib" on Windows without MinGW and ".a"
  on Linux, whatever the architecture. Assembly, bitcode, header, C source, statement
  dump and statement html get ".s", ".bc", ".h", ".cpp", ".stmt" and ".html".
\<close>

theorem compute_outputs_default_extensions:
  assumes "extensions options = Map.empty" and "requests_all_kinds options"
  shows "(arch target = PNaCl \<longrightarrow>
            object_name (compute_outputs target base_path options) = base_path @ ''.bc'') \<and>
         (os target = Windows \<and> \<not> has_feature target MinGW \<and> arch target \<noteq> PNaCl \<longrightarrow>
            object_name (compute_outputs target base_path options) = base_path @ ''.obj'') \<and>
         (os target = Windows \<and> \<not> has_feature target MinGW \<longrightarrow>
            static_library_name (compute_outputs target base_path options) =
              base_path @ ''.lib'') \<and>
         (os target = Linux \<and> arch target \<noteq> PNaCl \<longrightarrow>
            object_name (compute_outputs target base_path options) = base_path @ ''.o'') \<and>
         (os target = Linux \<longrightarrow>
            static_library_name (compute_outputs target base_path options) =
              base_path @ ''.a'') \<and>
         assembly_name (compute_outputs target base_path options) = base_path @ ''.s'' \<and>
         bitcode_name (compute_outputs target base_path options) = base_path @ ''.bc'' \<and>
         c_header_name (compute_outputs target base_path options) = base_path @ ''.h'' \<and>
         c_source_name (compute_outputs target base_path options) = base_path @ ''.cpp'' \<and>
         stmt_name (compute_outputs target base_path options) = base_path @ ''.stmt'' \<and>
         stmt_html_name (compute_outputs target base_path options) = base_path @ ''.html''"
  using assms by (simp add: compute_outputs_eval requests_all_kinds_def)

theorem compute_outputs_default_extensions_witness:
  "extensions (emit_everything Map.empty) = Map.empty \<and>
   requests_all_kinds (emit_everything Map.empty) \<and>
   object_name (compute_outputs \<lparr>os = Windows, arch = OtherArch 1, features = {}\<rparr> ''out/f''
     (emit_everything Map.empty)) = ''out/f.obj'' \<and>
   static_library_name (compute_outputs \<lparr>os = Windows, arch = OtherArch 1, features = {}\<rparr>
     ''out/f'' (emit_everything Map.empty)) = ''out/f.lib'' \<and>
   object_name (compute_outputs \<lparr>os = Linux, arch = OtherArch 1, features = {}\<rparr> ''out/f''
     (emit_everything Map.empty)) = ''out/f.o'' \<and>
   static_library_name (compute_outputs \<lparr>os = Linux, arch = OtherArch 1, features = {}\<rparr>
     ''out/f'' (emit_everything Map.empty)) = ''out/f.a'' \<and>
   object_name (compute_outputs \<lparr>os = OtherOS 3, arch = PNaCl, features = {}\<rparr> ''out/f''
     (emit_everything Map.empty)) = ''out/f.bc'' \<and>
   object_name (compute_outputs \<lparr>os = Windows, arch = PNaCl, features = {}\<rparr> ''out/f''
     (emit_everything Map.empty)) = ''out/f.bc'' \<and>
   static_library_name (compute_outputs \<lparr>os = Windows, arch = PNaCl, features = {}\<rparr>
     ''out/f'' (emit_everything Map.empty)) = ''out/f.lib''"
proof -
  have h: "extensions (emit_everything Map.empty) = Map.empty"
    "requests_all_kinds (emit_everything Map.empty)"
    by (simp_all add: emit_everything_def requests_all_kinds_def)
  show ?thesis
    using h
      compute_outputs_default_extensions [OF h,
        of "\<lparr>os = Windows, arch = OtherArch 1, features = {}\<rparr>" "''out/f''"]
      compute_outputs_default_extensions [OF h,
        of "\<lparr>os = Linux, arch = OtherArch 1, features = {}\<rparr>" "''out/f''"]
      compute_outputs_default_extensions [OF h,
        of "\<lparr>os = OtherOS 3, arch = PNaCl, features = {}\<rparr>" "''out/f''"]
      compute_outputs_default_extensions [OF h,
        of "\<lparr>os = Windows, arch = PNaCl, features = {}\<rparr>" "''out/f''"]
    by (simp add: has_feature_def)
qed

text \<open>
  Claim C7, as amended. For a Linux target whose architecture is not PNaCl, with the
  extension table {".o" -> ".obj2"} and every kind requested, the outputs are those
  of the empty table except for the object name, which ends in ".obj2"; the header
  keeps ".h" and the static library ".a".
\<close>

theorem compute_outputs_override_object_only:
  assumes "os target = Linux" and "arch target \<noteq> PNaCl"
    and "extensions options = [''.o'' \<mapsto> ''.obj2'']" and "requests_all_kinds options"
  shows "compute_outputs target base_path options =
           (compute_outputs target base_path (options\<lparr>extensions := Map.empty\<rparr>))
             \<lparr>object_name := base_path @ ''.obj2''\<rparr> \<and>
         object_name (compute_outputs target base_path (options\<lparr>extensions := Map.empty\<rparr>)) =
           base_path @ ''.o'' \<and>
         object_name (compute_outputs target base_path options) = base_path @ ''.obj2'' \<and>
         c_header_name (compute_outputs target base_path options) = base_path @ ''.h'' \<and>
         static_library_name (compute_outputs target base_path options) = base_path @ ''.a'' \<and>
         assembly_name (compute_outputs target base_path options) = base_path @ ''.s'' \<and>
         bitcode_name (compute_outputs target base_path options) = base_path @ ''.bc'' \<and>
         c_source_name (compute_outputs target base_path options) = base_path @ ''.cpp'' \<and>
         stmt_name (compute_outputs target base_path options) = base_path @ ''.stmt'' \<and>
         stmt_html_name (compute_outputs target base_path options) = base_path @ ''.html''"
  using assms by (simp add: compute_outputs_eval requests_all_kinds_def)

theorem compute_outputs_override_object_only_witness:
  "os \<lparr>os = Linux, arch = OtherArch 1, features = {}\<rparr> = Linux \<and>
   arch \<lparr>os = Linux, arch = OtherArch 1, features = {}\<rparr> \<noteq> PNaCl \<and>
   extensions (emit_everything [''.o'' \<mapsto> ''.obj2'']) = [''.o'' \<mapsto> ''.obj2''] \<and>
   requests_all_kinds (emit_everything [''.o'' \<mapsto> ''.obj2'']) \<and>
   object_name (compute_outputs \<lparr>os = Linux, arch = OtherArch 1, features = {}\<rparr> ''out/f''
     (emit_everything [''.o'' \<mapsto> ''.obj2''])) = ''out/f.obj2'' \<and>
   c_header_name (compute_outputs \<lparr>os = Linux, arch = OtherArch 1, features = {}\<rparr> ''out/f''
     (emit_everything [''.o'' \<mapsto> ''.obj2''])) = ''out/f.h'' \<and>
   static_library_name (compute_outputs \<lparr>os = Linux, arch = OtherArch 1, features = {}\<rparr>
     ''out/f'' (emit_everything [''.o'' \<mapsto> ''.obj2''])) = ''out/f.a''"
proof -
  have h: "os \<lparr>os = Linux, arch = OtherArch 1, features = {}\<rparr> = Linux"
    "arch \<lparr>os = Linux, arch = OtherArch 1, features = {}\<rparr> \<noteq> PNaCl"
    "extensions (emit_everything [''.o'' \<mapsto> ''.obj2'']) = [''.o'' \<mapsto> ''.obj2'']"
    "requests_all_kinds (emit_everything [''.o'' \<mapsto> ''.obj2''])"
    by (simp_all add: emit_everything_def requests_all_kinds_def)
  show ?thesis
    using h compute_outputs_override_object_only [OF h, of "''out/f''", THEN conjunct2]
    by simp
qed

text \<open>
  The claim as written speaks of every Linux target. On a Linux target of the PNaCl
  architecture the object kind looks up ".bc", not ".o": the override changes
  nothing, and the object name ends in ".bc".
\<close>

theorem compute_outputs_override_linux_pnacl:
  "os \<lparr>os = Linux, arch = PNaCl, features = {}\<rparr> = Linux \<and>
   requests_all_kinds (emit_everything [''.o'' \<mapsto> ''.obj2'']) \<and>
   object_name (compute_outputs \<lparr>os = Linux, arch = PNaCl, features = {}\<rparr> ''out/f''
      (emit_everything [''.o'' \<mapsto> ''.obj2''])) = ''out/f.bc'' \<and>
   object_name (compute_outputs \<lparr>os = Linux, arch = PNaCl, features = {}\<rparr> ''out/f''
      (emit_everything [''.o'' \<mapsto> ''.obj2''])) \<noteq> ''out/f'' @ ''.obj2'' \<and>
   compute_outputs \<lparr>os = Linux, arch = PNaCl, features = {}\<rparr> ''out/f''
      (emit_everything [''.o'' \<mapsto> ''.obj2'']) =
   compute_outputs \<lparr>os = Linux, arch = PNaCl, features = {}\<rparr> ''out/f''
      (emit_everything Map.empty)"
  by (simp add: compute_outputs_eval requests_all_kinds_def emit_everything_def)

text \<open>
  Claim C10. When the extension table maps ".bc" to a replacement and the target is
  of the PNaCl architecture, with the object and the bitcode kinds requested, the
  one override names both the object and the bitcode artifact: both kinds look up
  the key ".bc".
\<close>

theorem compute_outputs_pnacl_shared_override:
  assumes "extensions options ''.bc'' = Some replacement" and "arch target = PNaCl"
    and "emit_o options" and "emit_bitcode options"
  shows "object_name (compute_outputs target base_path options) = base_path @ replacement \<and>
         bitcode_name (compute_outputs target base_path options) = base_path @ replacement"
  using assms by (simp add: compute_outputs_eval)

theorem compute_outputs_pnacl_shared_override_witness:
  "extensions (emit_everything [''.bc'' \<mapsto> ''.pexe'']) ''.bc'' = Some ''.pexe'' \<and>
   arch \<lparr>os = Linux, arch = PNaCl, features = {}\<rparr> = PNaCl \<and>
   emit_o (emit_everything [''.bc'' \<mapsto> ''.pexe'']) \<and>
   emit_bitcode (emit_everything [''.bc'' \<mapsto> ''.pexe'']) \<and>
   object_name (compute_outputs \<lparr>os = Linux, arch = PNaCl, features = {}\<rparr> ''out/f''
     (emit_everything [''.bc'' \<mapsto> ''.pexe''])) = ''out/f.pexe'' \<and>
   bitcode_name (compute_outputs \<lparr>os = Linux, arch = PNaCl, features = {}\<rparr> ''out/f''
     (emit_everything [''.bc'' \<mapsto> ''.pexe''])) = ''out/f.pexe''"
proof -
  have h: "extensions (emit_everything [''.bc'' \<mapsto> ''.pexe'']) ''.bc'' = Some ''.pexe''"
    "arch \<lparr>os = Linux, arch = PNaCl, features = {}\<rparr> = PNaCl"
    "emit_o (emit_everything [''.bc'' \<mapsto> ''.pexe''])"
    "emit_bitcode (emit_everything [''.bc'' \<mapsto> ''.pexe''])"
    by (simp_all add: emit_everything_def)
  show ?thesis
    using h compute_outputs_pnacl_shared_override [OF h, of "''out/f''"] by simp
qed


subsection \<open>Parameter discovery\<close>

text \<open>Each loop either goes on with the element recorded, or raises and leaves the state.\<close>

lemma add_filter_params_step:
  "add_filter_params (v # vf) s =
     add_filter_params vf (s\<lparr>filter_params := filter_params s @ [v]\<rparr>) \<or>
   (\<exists>e. add_filter_params (v # vf) s = (Inl e, s) \<and> (v \<noteq> nullptr \<longrightarrow> is_user_error e) \<and>
      e \<noteq> exclusive_error)"
  by (simp add: Let_def is_user_error_def exclusive_error_def)

lemma add_filter_inputs_step:
  "add_filter_inputs (v # vi) s =
     add_filter_inputs vi (s\<lparr>filter_inputs := filter_inputs s @ [v]\<rparr>) \<or>
   (\<exists>e. add_filter_inputs (v # vi) s = (Inl e, s) \<and> (v \<noteq> nullptr \<longrightarrow> is_user_error e) \<and>
      e \<noteq> exclusive_error)"
  by (simp add: Let_def is_user_error_def exclusive_error_def)

lemma add_generator_params_step:
  "add_generator_params (v # vg) s =
     add_generator_params vg
       (s\<lparr>generator_params :=
            (generator_params s)(generator_param_name (generator_param_at s v) \<mapsto> v)\<rparr>) \<or>
   (\<exists>e. add_generator_params (v # vg) s = (Inl e, s) \<and> (v \<noteq> nullptr \<longrightarrow> is_user_error e))"
  by (simp add: Let_def is_user_error_def)

lemma add_filter_params_frame:
  "add_filter_params vf s = (r, s') \<Longrightarrow> s' = s\<lparr>filter_params := filter_params s'\<rparr>"
proof (induction vf arbitrary: s)
  case Nil
  then show ?case by simp
next
  case (Cons v vf)
  from add_filter_params_step [of v vf s] show ?case
  proof
    assume "add_filter_params (v # vf) s =
      add_filter_params vf (s\<lparr>filter_params := filter_params s @ [v]\<rparr>)"
    then have "s' = (s\<lparr>filter_params := filter_params s @ [v]\<rparr>)
        \<lparr>filter_params := filter_params s'\<rparr>"
      using Cons.IH Cons.prems by simp
    then show ?thesis by simp
  next
    assume "\<exists>e. add_filter_params (v # vf) s = (Inl e, s) \<and>
      (v \<noteq> nullptr \<longrightarrow> is_user_error e) \<and> e \<noteq> exclusive_error"
    then have "s' = s" using Cons.prems by auto
    then show ?thesis by simp
  qed
qed

lemma add_filter_params_success:
  "add_filter_params vf s = (Inr u, s') \<Longrightarrow> filter_params s' = filter_params s @ vf"
proof (induction vf arbitrary: s)
  case Nil
  then show ?case by simp
next
  case (Cons v vf)
  from add_filter_params_step [of v vf s] show ?case
  proof
    assume "add_filter_params (v # vf) s =
      add_filter_params vf (s\<lparr>filter_params := filter_params s @ [v]\<rparr>)"
    then show ?thesis using Cons.IH Cons.prems by simp
  next
    assume "\<exists>e. add_filter_params (v # vf) s = (Inl e, s) \<and>
      (v \<noteq> nullptr \<longrightarrow> is_user_error e) \<and> e \<noteq> exclusive_error"
    then show ?thesis using Cons.prems by auto
  qed
qed

lemma add_filter_params_failure:
  "add_filter_params vf s = (Inl e, s') \<Longrightarrow> nullptr \<notin> set vf \<Longrightarrow> is_user_error e"
proof (induction vf arbitrary: s)
  case Nil
  then show ?case by simp
next
  case (Cons v vf)
  from add_filter_params_step [of v vf s] show ?case
  proof
    assume "add_filter_params (v # vf) s =
      add_filter_params vf (s\<lparr>filter_params := filter_params s @ [v]\<rparr>)"
    then show ?thesis using Cons.IH Cons.prems by simp
  next
    assume "\<exists>e. add_filter_params (v # vf) s = (Inl e, s) \<and>
      (v \<noteq> nullptr \<longrightarrow> is_user_error e) \<and> e \<noteq> exclusive_error"
    then show ?thesis using Cons.prems by auto
  qed
qed

lemma add_filter_inputs_frame:
  "add_filter_inputs vi s = (r, s') \<Longrightarrow> s' = s\<lparr>filter_inputs := filter_inputs s'\<rparr>"
proof (induction vi arbitrary: s)
  case Nil
  then show ?case by simp
next
  case (Cons v vi)
  from add_filter_inputs_step [of v vi s] show ?case
  proof
    assume "add_filter_inputs (v # vi) s =
      add_filter_inputs vi (s\<lparr>filter_inputs := filter_inputs s @ [v]\<rparr>)"
    then have "s' = (s\<lparr>filter_inputs := filter_inputs s @ [v]\<rparr>)
        \<lparr>filter_inputs := filter_inputs s'\<rparr>"
      using Cons.IH Cons.prems by simp
    then show ?thesis by simp
  next
    assume "\<exists>e. add_filter_inputs (v # vi) s = (Inl e, s) \<and>
      (v \<noteq> nullptr \<longrightarrow> is_user_error e) \<and> e \<noteq> exclusive_error"
    then have "s' = s" using Cons.prems by auto
    then show ?thesis by simp
  qed
qed

lemma add_filter_inputs_success:
  "add_filter_inputs vi s = (Inr u, s') \<Longrightarrow> filter_inputs s' = filter_inputs s @ vi"
proof (induction vi arbitrary: s)
  case Nil
  then show ?case by simp
next
  case (Cons v vi)
  from add_filter_inputs_step [of v vi s] show ?case
  proof
    assume "add_filter_inputs (v # vi) s =
      add_filter_inputs vi (s\<lparr>filter_inputs := filter_inputs s @ [v]\<rparr>)"
    then show ?thesis using Cons.IH Cons.prems by simp
  next
    assume "\<exists>e. add_filter_inputs (v # vi) s = (Inl e, s) \<and>
      (v \<noteq> nullptr \<longrightarrow> is_user_error e) \<and> e \<noteq> exclusive_error"
    then show ?thesis using Cons.prems by auto
  qed
qed

lemma add_filter_inputs_failure:
  "add_filter_inputs vi s = (Inl e, s') \<Longrightarrow> nullptr \<notin> set vi \<Longrightarrow> is_user_error e"
proof (induction vi arbitrary: s)
  case Nil
  then show ?case by simp
next
  case (Cons v vi)
  from add_filter_inputs_step [of v vi s] show ?case
  proof
    assume "add_filter_inputs (v # vi) s =
      add_filter_inputs vi (s\<lparr>filter_inputs := filter_inputs s @ [v]\<rparr>)"
    then show ?thesis using Cons.IH Cons.prems by simp
  next
    assume "\<exists>e. add_filter_inputs (v # vi) s = (Inl e, s) \<and>
      (v \<noteq> nullptr \<longrightarrow> is_user_error e) \<and> e \<noteq> exclusive_error"
    then show ?thesis using Cons.prems by auto
  qed
qed

lemma add_generator_params_frame:
  "add_generator_params vg s = (r, s') \<Longrightarrow> s' = s\<lparr>generator_params := generator_params s'\<rparr>"
proof (induction vg arbitrary: s)
  case Nil
  then show ?case by simp
next
  case (Cons v vg)
  let ?s1 = "s\<lparr>generator_params :=
    (generator_params s)(generator_param_name (generator_param_at s v) \<mapsto> v)\<rparr>"
  from add_generator_params_step [of v vg s] show ?case
  proof
    assume "add_generator_params (v # vg) s = add_generator_params vg ?s1"
    then have "s' = ?s1\<lparr>generator_params := generator_params s'\<rparr>"
      using Cons.IH Cons.prems by simp
    then show ?thesis by simp
  next
    assume "\<exists>e. add_generator_params (v # vg) s = (Inl e, s) \<and>
      (v \<noteq> nullptr \<longrightarrow> is_user_error e)"
    then have "s' = s" using Cons.prems by auto
    then show ?thesis by simp
  qed
qed

lemma add_generator_params_failure:
  "add_generator_params vg s = (Inl e, s') \<Longrightarrow> nullptr \<notin> set vg \<Longrightarrow> is_user_error e"
proof (induction vg arbitrary: s)
  case Nil
  then show ?case by simp
next
  case (Cons v vg)
  from add_generator_params_step [of v vg s] show ?case
  proof
    assume "add_generator_params (v # vg) s = add_generator_params vg
      (s\<lparr>generator_params :=
         (generator_params s)(generator_param_name (generator_param_at s v) \<mapsto> v)\<rparr>)"
    then show ?thesis using Cons.IH Cons.prems by simp
  next
    assume "\<exists>e. add_generator_params (v # vg) s = (Inl e, s) \<and>
      (v \<noteq> nullptr \<longrightarrow> is_user_error e)"
    then show ?thesis using Cons.prems by auto
  qed
qed

text \<open>
  A loop that returns has recorded every element: the names were valid and new.
\<close>

lemma add_generator_params_success:
  "add_generator_params vg s = (Inr u, s') \<Longrightarrow>
     distinct (map (\<lambda>v. generator_param_name (generator_param_at s v)) vg) \<and>
     (\<forall>v \<in> set vg. generator_params s (generator_param_name (generator_param_at s v)) = None) \<and>
     (\<forall>n. generator_params s' n =
        (case find (\<lambda>v. generator_param_name (generator_param_at s v) = n) vg of
           Some v \<Rightarrow> Some v
         | None \<Rightarrow> generator_params s n))"
proof (induction vg arbitrary: s)
  case Nil
  then show ?case by simp
next
  case (Cons v vg)
  let ?name = "\<lambda>v. generator_param_name (generator_param_at s v)"
  let ?s1 = "s\<lparr>generator_params := (generator_params s)(?name v \<mapsto> v)\<rparr>"
  from add_generator_params_step [of v vg s] show ?case
  proof
    assume step: "add_generator_params (v # vg) s = add_generator_params vg ?s1"
    have new: "generator_params s (?name v) = None"
    proof (rule ccontr)
      assume "generator_params s (?name v) \<noteq> None"
      then have "\<exists>e. add_generator_params (v # vg) s = (Inl e, s)"
        by (simp add: Let_def)
      then show False using Cons.prems by auto
    qed
    have ih: "distinct (map ?name vg) \<and>
      (\<forall>w \<in> set vg. (generator_params ?s1) (?name w) = None) \<and>
      (\<forall>n. generator_params s' n =
        (case find (\<lambda>w. ?name w = n) vg of Some w \<Rightarrow> Some w
         | None \<Rightarrow> generator_params ?s1 n))"
      using Cons.IH [of ?s1] Cons.prems step by simp
    then have notin: "?name v \<notin> ?name ` set vg"
      by (auto split: if_splits)
    have old: "\<forall>w \<in> set vg. generator_params s (?name w) = None"
      using ih by (auto split: if_splits)
    have "\<forall>n. generator_params s' n =
        (case find (\<lambda>w. ?name w = n) (v # vg) of Some w \<Rightarrow> Some w
         | None \<Rightarrow> generator_params s n)"
    proof
      fix n
      show "generator_params s' n =
        (case find (\<lambda>w. ?name w = n) (v # vg) of Some w \<Rightarrow> Some w
         | None \<Rightarrow> generator_params s n)"
      proof (cases "?name v = n")
        case True
        have "find (\<lambda>w. ?name w = n) vg = None"
          unfolding find_None_iff using notin True by blast
        then show ?thesis using ih True by simp
      next
        case False
        have "generator_params ?s1 n = generator_params s n" using False by simp
        moreover have "generator_params s' n =
          (case find (\<lambda>w. ?name w = n) vg of Some w \<Rightarrow> Some w
           | None \<Rightarrow> generator_params ?s1 n)"
          using ih by blast
        ultimately show ?thesis using False by (simp split: option.splits)
      qed
    qed
    then show ?thesis using ih notin new old by simp
  next
    assume "\<exists>e. add_generator_params (v # vg) s = (Inl e, s) \<and>
      (v \<noteq> nullptr \<longrightarrow> is_user_error e)"
    then show ?thesis using Cons.prems by auto
  qed
qed

text \<open>When the first two loops return: the names are explicit, valid and new.\<close>

lemma add_filter_params_succeeds_iff:
  "(\<exists>s'. add_filter_params vf s = (Inr (), s')) \<longleftrightarrow>
     (\<forall>v \<in> set vf. v \<noteq> nullptr \<and> is_explicit_name (parameter_at s v) \<and>
        is_valid_name (parameter_name (parameter_at s v))) \<and>
     distinct (map (\<lambda>v. parameter_name (parameter_at s v)) vf) \<and>
     (\<forall>v \<in> set vf. \<forall>p \<in> set (filter_params s).
        parameter_name (parameter_at s p) \<noteq> parameter_name (parameter_at s v))"
proof (induction vf arbitrary: s)
  case Nil
  then show ?case by simp
next
  case (Cons v vf)
  let ?s1 = "s\<lparr>filter_params := filter_params s @ [v]\<rparr>"
  let ?ok = "v \<noteq> nullptr \<and> is_explicit_name (parameter_at s v) \<and>
        is_valid_name (parameter_name (parameter_at s v)) \<and>
        (\<forall>p \<in> set (filter_params s).
           parameter_name (parameter_at s p) \<noteq> parameter_name (parameter_at s v))"
  show ?case
  proof (cases ?ok)
    case True
    then have "add_filter_params (v # vf) s = add_filter_params vf ?s1"
      by (simp add: Let_def list_ex_iff)
    then have "(\<exists>s'. add_filter_params (v # vf) s = (Inr (), s')) \<longleftrightarrow>
        (\<exists>s'. add_filter_params vf ?s1 = (Inr (), s'))" by simp
    also have "\<dots> \<longleftrightarrow>
      (\<forall>v \<in> set vf. v \<noteq> nullptr \<and> is_explicit_name (parameter_at s v) \<and>
        is_valid_name (parameter_name (parameter_at s v))) \<and>
      distinct (map (\<lambda>v. parameter_name (parameter_at s v)) vf) \<and>
      (\<forall>w \<in> set vf. \<forall>p \<in> set (filter_params s @ [v]).
        parameter_name (parameter_at s p) \<noteq> parameter_name (parameter_at s w))"
      using Cons.IH [of ?s1] by simp
    finally show ?thesis using True by auto
  next
    case False
    then have "\<exists>e. add_filter_params (v # vf) s = (Inl e, s)"
      by (auto simp: Let_def list_ex_iff)
    then show ?thesis using False by auto
  qed
qed

lemma add_filter_inputs_succeeds_iff:
  "(\<exists>s'. add_filter_inputs vi s = (Inr (), s')) \<longleftrightarrow>
     (\<forall>v \<in> set vi. v \<noteq> nullptr \<and> is_valid_name (input_name (input_at s v))) \<and>
     distinct (map (\<lambda>v. input_name (input_at s v)) vi) \<and>
     (\<forall>v \<in> set vi. \<forall>p \<in> set (filter_inputs s).
        input_name (input_at s p) \<noteq> input_name (input_at s v))"
proof (induction vi arbitrary: s)
  case Nil
  then show ?case by simp
next
  case (Cons v vi)
  let ?s1 = "s\<lparr>filter_inputs := filter_inputs s @ [v]\<rparr>"
  let ?ok = "v \<noteq> nullptr \<and> is_valid_name (input_name (input_at s v)) \<and>
        (\<forall>p \<in> set (filter_inputs s). input_name (input_at s p) \<noteq> input_name (input_at s v))"
  show ?case
  proof (cases ?ok)
    case True
    then have "add_filter_inputs (v # vi) s = add_filter_inputs vi ?s1"
      by (simp add: Let_def list_ex_iff)
    then have "(\<exists>s'. add_filter_inputs (v # vi) s = (Inr (), s')) \<longleftrightarrow>
        (\<exists>s'. add_filter_inputs vi ?s1 = (Inr (), s'))" by simp
    also have "\<dots> \<longleftrightarrow>
      (\<forall>v \<in> set vi. v \<noteq> nullptr \<and> is_valid_name (input_name (input_at s v))) \<and>
      distinct (map (\<lambda>v. input_name (input_at s v)) vi) \<and>
      (\<forall>w \<in> set vi. \<forall>p \<in> set (filter_inputs s @ [v]).
        input_name (input_at s p) \<noteq> input_name (input_at s w))"
      using Cons.IH [of ?s1] by simp
    finally show ?thesis using True by auto
  next
    case False
    then have "\<exists>e. add_filter_inputs (v # vi) s = (Inl e, s)"
      by (auto simp: Let_def list_ex_iff)
    then show ?thesis using False by auto
  qed
qed

text \<open>The errors of the two loops are not the error of line 405.\<close>

lemma add_filter_params_not_exclusive:
  "add_filter_params vf s = (Inl e, s') \<Longrightarrow> e \<noteq> exclusive_error"
proof (induction vf arbitrary: s)
  case Nil
  then show ?case by simp
next
  case (Cons v vf)
  from add_filter_params_step [of v vf s] show ?case
  proof
    assume "add_filter_params (v # vf) s =
      add_filter_params vf (s\<lparr>filter_params := filter_params s @ [v]\<rparr>)"
    then show ?thesis using Cons.IH Cons.prems by simp
  next
    assume "\<exists>e. add_filter_params (v # vf) s = (Inl e, s) \<and>
      (v \<noteq> nullptr \<longrightarrow> is_user_error e) \<and> e \<noteq> exclusive_error"
    then show ?thesis using Cons.prems by auto
  qed
qed

lemma add_filter_inputs_not_exclusive:
  "add_filter_inputs vi s = (Inl e, s') \<Longrightarrow> e \<noteq> exclusive_error"
proof (induction vi arbitrary: s)
  case Nil
  then show ?case by simp
next
  case (Cons v vi)
  from add_filter_inputs_step [of v vi s] show ?case
  proof
    assume "add_filter_inputs (v # vi) s =
      add_filter_inputs vi (s\<lparr>filter_inputs := filter_inputs s @ [v]\<rparr>)"
    then show ?thesis using Cons.IH Cons.prems by simp
  next
    assume "\<exists>e. add_filter_inputs (v # vi) s = (Inl e, s) \<and>
      (v \<noteq> nullptr \<longrightarrow> is_user_error e) \<and> e \<noteq> exclusive_error"
    then show ?thesis using Cons.prems by auto
  qed
qed

lemma add_generator_params_map:
  assumes "add_generator_params vg s = (Inr u, s')"
  shows "generator_params s' =
    generator_params s ++ (\<lambda>n. find (\<lambda>v. generator_param_name (generator_param_at s v) = n) vg)"
proof (rule ext)
  fix n
  have "generator_params s' n =
        (case find (\<lambda>v. generator_param_name (generator_param_at s v) = n) vg of
           Some v \<Rightarrow> Some v
         | None \<Rightarrow> generator_params s n)"
    using add_generator_params_success [OF assms] by blast
  then show "generator_params s' n =
    (generator_params s ++
      (\<lambda>n. find (\<lambda>v. generator_param_name (generator_param_at s v) = n) vg)) n"
    by (simp add: map_add_def split: option.splits)
qed

subsection \<open>\<^verbatim>\<open>build_params\<close> and \<^verbatim>\<open>rebuild_params\<close>\<close>

lemma build_params_built: "params_built s \<Longrightarrow> build_params s = (Inr (), s)"
  by (simp add: build_params_def)

text \<open>Discovery writes to the members of \<^verbatim>\<open>GeneratorBase\<close> only.\<close>

lemma build_params_frame:
  assumes "build_params s = (r, s')"
  shows "instances_in_range s' = instances_in_range s \<and> parameter_at s' = parameter_at s \<and>
         input_at s' = input_at s \<and> generator_param_at s' = generator_param_at s"
proof (cases "params_built s")
  case True
  then show ?thesis using assms by (simp add: build_params_def)
next
  case False
  obtain r1 s1 where 1: "add_filter_params (instances_in_range s FilterParam) s = (r1, s1)"
    by (cases "add_filter_params (instances_in_range s FilterParam) s")
  obtain r2 s2 where 2: "add_filter_inputs (instances_in_range s1 GeneratorInput) s1 = (r2, s2)"
    by (cases "add_filter_inputs (instances_in_range s1 GeneratorInput) s1")
  obtain r3 s3 where
    3: "add_generator_params (instances_in_range s2 GeneratorParam) s2 = (r3, s3)"
    by (cases "add_generator_params (instances_in_range s2 GeneratorParam) s2")
  note f1 = add_filter_params_frame [OF 1]
  note f2 = add_filter_inputs_frame [OF 2]
  note f3 = add_generator_params_frame [OF 3]
  have e1: "instances_in_range s1 = instances_in_range s \<and> parameter_at s1 = parameter_at s \<and>
      input_at s1 = input_at s \<and> generator_param_at s1 = generator_param_at s"
    by (subst f1, simp)+
  have e2: "instances_in_range s2 = instances_in_range s1 \<and> parameter_at s2 = parameter_at s1 \<and>
      input_at s2 = input_at s1 \<and> generator_param_at s2 = generator_param_at s1"
    by (subst f2, simp)+
  have e3: "instances_in_range s3 = instances_in_range s2 \<and> parameter_at s3 = parameter_at s2 \<and>
      input_at s3 = input_at s2 \<and> generator_param_at s3 = generator_param_at s2"
    by (subst f3, simp)+
  have "s' = s1 \<or> s' = s2 \<or> s' = s3 \<or> s' = s3\<lparr>params_built := True\<rparr>"
    using assms False 1 2 3
    by (auto simp: build_params_def split: sum.splits if_splits)
  then show ?thesis using e1 e2 e3 by auto
qed

lemma build_params_success:
  assumes "build_params s = (Inr u, s')"
  shows "params_built s'"
  using assms
  by (auto simp: build_params_def split: if_splits prod.splits sum.splits)

text \<open>
  Without a null entry among the registered instances, what \<^verbatim>\<open>build_params\<close> raises
  is a user error.
\<close>

lemma build_params_failure:
  assumes "build_params s = (Inl e, s')"
    and "\<And>kind. nullptr \<notin> set (instances_in_range s kind)"
  shows "is_user_error e"
proof -
  have nb: "\<not> params_built s" using assms(1) by (auto simp: build_params_def)
  obtain r1 s1 where 1: "add_filter_params (instances_in_range s FilterParam) s = (r1, s1)"
    by (cases "add_filter_params (instances_in_range s FilterParam) s")
  obtain r2 s2 where 2: "add_filter_inputs (instances_in_range s1 GeneratorInput) s1 = (r2, s2)"
    by (cases "add_filter_inputs (instances_in_range s1 GeneratorInput) s1")
  obtain r3 s3 where
    3: "add_generator_params (instances_in_range s2 GeneratorParam) s2 = (r3, s3)"
    by (cases "add_generator_params (instances_in_range s2 GeneratorParam) s2")
  note f1 = add_filter_params_frame [OF 1]
  note f2 = add_filter_inputs_frame [OF 2]
  have e1: "instances_in_range s1 = instances_in_range s" by (subst f1) simp
  have e2: "instances_in_range s2 = instances_in_range s1" by (subst f2) simp
  have "r1 = Inl e \<or> r2 = Inl e \<or> e = exclusive_error \<or> r3 = Inl e"
    using assms(1) nb 1 2 3 by (auto simp: build_params_def split: sum.splits if_splits)
  moreover have "is_user_error e" if "r1 = Inl e"
    using add_filter_params_failure 1 that assms(2) by blast
  moreover have "is_user_error e" if "r2 = Inl e"
    using add_filter_inputs_failure 2 that assms(2) e1 by metis
  moreover have "is_user_error e" if "r3 = Inl e"
    using add_generator_params_failure 3 that assms(2) e1 e2 by metis
  moreover have "is_user_error exclusive_error"
    by (simp add: exclusive_error_def is_user_error_def)
  ultimately show ?thesis by blast
qed

text \<open>What a discovery that runs and returns has recorded.\<close>

lemma build_params_discovers:
  assumes "build_params s = (Inr u, s')" and "\<not> params_built s"
  shows "filter_params s' = filter_params s @ instances_in_range s FilterParam \<and>
         filter_inputs s' = filter_inputs s @ instances_in_range s GeneratorInput \<and>
         generator_params s' = generator_params s ++ declared_generator_params s \<and>
         (filter_params s' = [] \<or> filter_inputs s' = [])"
proof -
  obtain r1 s1 where 1: "add_filter_params (instances_in_range s FilterParam) s = (r1, s1)"
    by (cases "add_filter_params (instances_in_range s FilterParam) s")
  obtain r2 s2 where 2: "add_filter_inputs (instances_in_range s1 GeneratorInput) s1 = (r2, s2)"
    by (cases "add_filter_inputs (instances_in_range s1 GeneratorInput) s1")
  obtain r3 s3 where
    3: "add_generator_params (instances_in_range s2 GeneratorParam) s2 = (r3, s3)"
    by (cases "add_generator_params (instances_in_range s2 GeneratorParam) s2")
  have ok: "r1 = Inr () \<and> r2 = Inr () \<and> r3 = Inr () \<and> s' = s3\<lparr>params_built := True\<rparr> \<and>
      \<not> (length (filter_params s2) > 0 \<and> length (filter_inputs s2) > 0)"
    using assms 1 2 3 by (auto simp: build_params_def split: sum.splits if_splits)
  note f1 = add_filter_params_frame [OF 1]
  note f2 = add_filter_inputs_frame [OF 2]
  note f3 = add_generator_params_frame [OF 3]
  have p1: "filter_params s1 = filter_params s @ instances_in_range s FilterParam"
    using add_filter_params_success 1 ok by blast
  have i1: "filter_inputs s1 = filter_inputs s" "instances_in_range s1 = instances_in_range s"
    "generator_params s1 = generator_params s" "generator_param_at s1 = generator_param_at s"
    by (subst f1, simp)+
  have i2: "filter_inputs s2 = filter_inputs s1 @ instances_in_range s1 GeneratorInput"
    using add_filter_inputs_success 2 ok by blast
  have p2: "filter_params s2 = filter_params s1" "instances_in_range s2 = instances_in_range s1"
    "generator_params s2 = generator_params s1" "generator_param_at s2 = generator_param_at s1"
    by (subst f2, simp)+
  have p3: "filter_params s3 = filter_params s2" "filter_inputs s3 = filter_inputs s2"
    by (subst f3, simp)+
  have g3: "generator_params s3 = generator_params s2 ++
      (\<lambda>n. find (\<lambda>v. generator_param_name (generator_param_at s2 v) = n)
        (instances_in_range s2 GeneratorParam))"
    using add_generator_params_map [of "instances_in_range s2 GeneratorParam" s2 "()" s3]
      3 ok by simp
  have g: "generator_params s' = generator_params s ++ declared_generator_params s"
    using g3 ok i1 p2 by (simp add: declared_generator_params_def)
  show ?thesis
    using ok p1 i1 i2 p2 p3 g by auto
qed

lemmas example_eval =
  example_with_both_def example_with_param_def example_with_input_def GeneratorBase_new_def
  example_late_param_def example_with_two_settings_def example_second_generator_param_def
  example_parameter_def example_input_def example_generator_param_def Parameter_new_def
  input_name_def nullptr_def is_valid_name_eval build_params_def exclusive_error_def

text \<open>
  Claim C4, as amended. In an instance whose discovery has not been made (a new
  instance, or one that \<^verbatim>\<open>rebuild_params\<close> has reset), with at least one free
  parameter and at least one input declared, \<^verbatim>\<open>build_params\<close> raises; what it raises
  is a user error when no registered free parameter or input is null. The checks of
  the names come first: the error is that of the first loop if it raises, else that
  of the second loop if it raises, and else the error of line 405; so it is the error
  of line 405 exactly when the names of the free parameters and of the inputs are all
  accepted. No configuration parameter has been indexed by then, the discovery is not
  marked as made, and \<^verbatim>\<open>get_filter_arguments\<close> raises the same error, so no Argument
  list is produced.
\<close>

theorem build_params_params_and_inputs:
  assumes "\<not> params_built s"
    and "instances_in_range s FilterParam \<noteq> []"
    and "instances_in_range s GeneratorInput \<noteq> []"
  shows "\<exists>e s'. build_params s = (Inl e, s') \<and>
           (nullptr \<notin> set (instances_in_range s FilterParam) \<and>
            nullptr \<notin> set (instances_in_range s GeneratorInput) \<longrightarrow> is_user_error e) \<and>
           generator_params s' = generator_params s \<and> \<not> params_built s' \<and>
           get_filter_arguments ext s = (Inl e, s') \<and>
           (e = exclusive_error \<longleftrightarrow> filter_params_accepted s \<and> filter_inputs_accepted s) \<and>
           (case add_filter_params (instances_in_range s FilterParam) s of
              (Inl e1, s1) \<Rightarrow> e = e1 \<and> s' = s1
            | (Inr _, s1) \<Rightarrow>
                filter_params s1 = filter_params s @ instances_in_range s FilterParam \<and>
                (case add_filter_inputs (instances_in_range s GeneratorInput) s1 of
                   (Inl e2, s2) \<Rightarrow> e = e2 \<and> s' = s2
                 | (Inr _, s2) \<Rightarrow>
                     filter_inputs s2 = filter_inputs s @ instances_in_range s GeneratorInput \<and>
                     e = exclusive_error \<and> s' = s2))"
proof -
  let ?P = "instances_in_range s FilterParam"
  let ?I = "instances_in_range s GeneratorInput"
  obtain r1 s1 where 1: "add_filter_params ?P s = (r1, s1)"
    by (cases "add_filter_params ?P s")
  note f1 = add_filter_params_frame [OF 1]
  have i1: "filter_inputs s1 = filter_inputs s" "instances_in_range s1 = instances_in_range s"
    "generator_params s1 = generator_params s" "params_built s1 = params_built s"
    "input_at s1 = input_at s"
    by (subst f1, simp)+
  obtain r2 s2 where 2: "add_filter_inputs ?I s1 = (r2, s2)"
    by (cases "add_filter_inputs ?I s1")
  note f2 = add_filter_inputs_frame [OF 2]
  have p2: "filter_params s2 = filter_params s1" "instances_in_range s2 = instances_in_range s1"
    "generator_params s2 = generator_params s1" "params_built s2 = params_built s1"
    by (subst f2, simp)+
  have acc1: "filter_params_accepted s \<longleftrightarrow> (\<exists>s'. add_filter_params ?P s = (Inr (), s'))"
    unfolding filter_params_accepted_def add_filter_params_succeeds_iff ..
  have acc2: "filter_inputs_accepted s \<longleftrightarrow> (\<exists>s'. add_filter_inputs ?I s1 = (Inr (), s'))"
    unfolding filter_inputs_accepted_def add_filter_inputs_succeeds_iff i1 ..
  show ?thesis
  proof (cases r1)
    case (Inl e1)
    then have u: "nullptr \<notin> set ?P \<longrightarrow> is_user_error e1"
      using add_filter_params_failure 1 by blast
    have n: "e1 \<noteq> exclusive_error" using add_filter_params_not_exclusive 1 Inl by blast
    have a: "\<not> filter_params_accepted s" using acc1 1 Inl by simp
    have b: "build_params s = (Inl e1, s1)"
      using assms(1) 1 Inl by (simp add: build_params_def)
    then have "get_filter_arguments ext s = (Inl e1, s1)"
      by (simp add: get_filter_arguments_def)
    then show ?thesis using b u n a i1 assms(1) 1 Inl by auto
  next
    case (Inr u1)
    then have p1: "filter_params s1 = filter_params s @ ?P"
      using add_filter_params_success 1 by blast
    have a1: "filter_params_accepted s" using acc1 1 Inr by simp
    show ?thesis
    proof (cases r2)
      case (Inl e2)
      then have u: "nullptr \<notin> set ?I \<longrightarrow> is_user_error e2"
        using add_filter_inputs_failure 2 by blast
      have n: "e2 \<noteq> exclusive_error" using add_filter_inputs_not_exclusive 2 Inl by blast
      have a: "\<not> filter_inputs_accepted s" using acc2 2 Inl by simp
      have b: "build_params s = (Inl e2, s2)"
        using assms(1) 1 2 Inl Inr i1 by (simp add: build_params_def)
      then have "get_filter_arguments ext s = (Inl e2, s2)"
        by (simp add: get_filter_arguments_def)
      then show ?thesis using b u n a i1 p2 p1 assms(1) 1 2 Inl Inr by auto
    next
      case r2: (Inr u2)
      then have i2: "filter_inputs s2 = filter_inputs s @ ?I"
        using add_filter_inputs_success 2 i1 by metis
      have a2: "filter_inputs_accepted s" using acc2 2 r2 by simp
      have both: "length (filter_params s2) > 0 \<and> length (filter_inputs s2) > 0"
        using p1 p2 i2 assms(2,3) by simp
      have b: "build_params s = (Inl exclusive_error, s2)"
        using assms(1) 1 2 Inr r2 i1 both by (simp add: build_params_def)
      then have "get_filter_arguments ext s = (Inl exclusive_error, s2)"
        by (simp add: get_filter_arguments_def)
      moreover have "is_user_error exclusive_error"
        by (simp add: exclusive_error_def is_user_error_def)
      ultimately show ?thesis using b a1 a2 i1 p2 p1 i2 assms(1) 1 2 Inr r2 by auto
    qed
  qed
qed

theorem build_params_params_and_inputs_witness:
  "\<not> params_built example_with_both \<and>
   instances_in_range example_with_both FilterParam = [10] \<and>
   instances_in_range example_with_both GeneratorInput = [20] \<and>
   fst (build_params example_with_both) = Inl exclusive_error \<and>
   filter_params (snd (build_params example_with_both)) = [10] \<and>
   filter_inputs (snd (build_params example_with_both)) = [20] \<and>
   (\<exists>e s'. build_params example_with_both = (Inl e, s') \<and> is_user_error e \<and>
      generator_params s' = generator_params example_with_both \<and> \<not> params_built s' \<and>
      get_filter_arguments example_class example_with_both = (Inl e, s'))"
proof -
  have h: "\<not> params_built example_with_both"
    "instances_in_range example_with_both FilterParam \<noteq> []"
    "instances_in_range example_with_both GeneratorInput \<noteq> []"
    by (simp_all add: example_with_both_def GeneratorBase_new_def)
  have n: "nullptr \<notin> set (instances_in_range example_with_both FilterParam)"
    "nullptr \<notin> set (instances_in_range example_with_both GeneratorInput)"
    by (simp_all add: example_with_both_def GeneratorBase_new_def nullptr_def)
  have e: "build_params example_with_both =
      (Inl exclusive_error, example_with_both\<lparr>filter_params := [10], filter_inputs := [20]\<rparr>)"
    by (simp add: example_eval)
  have d: "instances_in_range example_with_both FilterParam = [10]"
    "instances_in_range example_with_both GeneratorInput = [20]"
    by (simp_all add: example_with_both_def GeneratorBase_new_def)
  from build_params_params_and_inputs [OF h, of example_class] n
  have "\<exists>e s'. build_params example_with_both = (Inl e, s') \<and> is_user_error e \<and>
      generator_params s' = generator_params example_with_both \<and> \<not> params_built s' \<and>
      get_filter_arguments example_class example_with_both = (Inl e, s')"
    by blast
  then show ?thesis using h(1) d e by simp
qed

text \<open>
  The claim as written has \<^verbatim>\<open>build_params\<close> raise in every instance with a free
  parameter and an input declared. In the instance whose input has been discovered
  and whose free parameter "a" is declared afterwards, both are declared,
  \<^verbatim>\<open>build_params\<close> returns without a look at the declarations, and
  \<^verbatim>\<open>get_filter_arguments\<close> produces the Argument list of the input. One
  \<^verbatim>\<open>build_module\<close> call gets there, when \<^verbatim>\<open>build_pipeline\<close> declares the free
  parameter: no free parameter is recorded, so line 480 does not rebuild, and the
  call returns a module.
\<close>

theorem build_params_late_declaration:
  "instances_in_range example_late_param FilterParam = [10] \<and>
   instances_in_range example_late_param GeneratorInput = [20] \<and>
   params_built example_late_param \<and>
   build_params example_late_param = (Inr (), example_late_param) \<and>
   fst (get_filter_arguments example_class example_late_param) =
     Inr [to_argument (input_parameter example_input)] \<and>
   snd (build_pipeline example_class_declaring (snd (build_params example_with_input))) =
     example_late_param \<and>
   fst (build_module example_class_declaring ''f'' External example_with_input) =
     Inr (7, [to_argument (input_parameter example_input)], ''f'',
          \<lparr>os = Linux, arch = OtherArch 1, features = {}\<rparr>, External)"
  by (simp add: example_eval example_class_declaring_def example_class_def build_module_def
      get_filter_arguments_def init_inputs_def init_internals_def)

subsection \<open>\<^verbatim>\<open>set_generator_param_values\<close>\<close>

text \<open>The loop writes to the objects of the configuration parameters only.\<close>

lemma set_generator_param_values_loop_frame:
  "set_generator_param_values_loop ext params s = (r, s') \<Longrightarrow>
     s' = s\<lparr>generator_param_at := generator_param_at s'\<rparr>"
proof (induction params arbitrary: s)
  case Nil
  then show ?case by simp
next
  case (Cons entry params)
  obtain key "value" where entry: "entry = (key, value)" by (cases entry)
  show ?case
  proof (cases "generator_params s key")
    case None
    then have "s' = s" using Cons.prems entry by simp
    then show ?thesis by simp
  next
    case (Some param)
    obtain r1 object where f: "from_string ext (generator_param_at s param) value = (r1, object)"
      by (cases "from_string ext (generator_param_at s param) value")
    let ?s1 = "s\<lparr>generator_param_at := (generator_param_at s)(param := object)\<rparr>"
    show ?thesis
    proof (cases r1)
      case (Inl e)
      then have "s' = ?s1" using Cons.prems entry Some f by simp
      then show ?thesis by (simp add: fun_upd_def)
    next
      case (Inr u)
      then have "set_generator_param_values_loop ext params ?s1 = (r, s')"
        using Cons.prems entry Some f by simp
      then have "s' = ?s1\<lparr>generator_param_at := generator_param_at s'\<rparr>" by (rule Cons.IH)
      then show ?thesis by simp
    qed
  qed
qed

text \<open>An object that no key of the mapping names keeps its value.\<close>

lemma set_generator_param_values_loop_others:
  "set_generator_param_values_loop ext params s = (r, s') \<Longrightarrow>
     \<forall>key \<in> fst ` set params. generator_params s key \<noteq> Some a \<Longrightarrow>
     generator_param_at s' a = generator_param_at s a"
proof (induction params arbitrary: s)
  case Nil
  then show ?case by simp
next
  case (Cons entry params)
  obtain key "value" where entry: "entry = (key, value)" by (cases entry)
  show ?case
  proof (cases "generator_params s key")
    case None
    then have "s' = s" using Cons.prems(1) entry by simp
    then show ?thesis by simp
  next
    case (Some param)
    then have ne: "param \<noteq> a" using Cons.prems(2) entry by auto
    obtain r1 object where f: "from_string ext (generator_param_at s param) value = (r1, object)"
      by (cases "from_string ext (generator_param_at s param) value")
    let ?s1 = "s\<lparr>generator_param_at := (generator_param_at s)(param := object)\<rparr>"
    show ?thesis
    proof (cases r1)
      case (Inl e)
      then have "s' = ?s1" using Cons.prems(1) entry Some f by simp
      then show ?thesis using ne by simp
    next
      case (Inr u)
      then have "set_generator_param_values_loop ext params ?s1 = (r, s')"
        using Cons.prems(1) entry Some f by simp
      moreover have "\<forall>key \<in> fst ` set params. generator_params ?s1 key \<noteq> Some a"
        using Cons.prems(2) by simp
      ultimately have "generator_param_at s' a = generator_param_at ?s1 a" by (rule Cons.IH)
      then show ?thesis using ne by simp
    qed
  qed
qed

text \<open>The loop over a mapping in two parts.\<close>

lemma set_generator_param_values_loop_append:
  "set_generator_param_values_loop ext (before @ after) s =
     (case set_generator_param_values_loop ext before s of
        (Inl e, s1) \<Rightarrow> (Inl e, s1)
      | (Inr _, s1) \<Rightarrow> set_generator_param_values_loop ext after s1)"
proof (induction before arbitrary: s)
  case Nil
  then show ?case by simp
next
  case (Cons entry before)
  obtain key "value" where entry: "entry = (key, value)" by (cases entry)
  show ?case
    using Cons.IH by (simp add: entry split: option.splits prod.splits sum.splits)
qed

lemma set_generator_param_values_loop_error:
  "set_generator_param_values_loop ext params s = (Inl e, s') \<Longrightarrow>
     \<forall>object text e' object'. from_string ext object text = (Inl e', object') \<longrightarrow>
        is_user_error e' \<Longrightarrow>
     is_user_error e"
proof (induction params arbitrary: s)
  case Nil
  then show ?case by simp
next
  case (Cons entry params)
  obtain key "value" where entry: "entry = (key, value)" by (cases entry)
  show ?case
  proof (cases "generator_params s key")
    case None
    then show ?thesis using Cons.prems(1) entry by (auto simp: is_user_error_def)
  next
    case (Some param)
    obtain r1 object where f: "from_string ext (generator_param_at s param) value = (r1, object)"
      by (cases "from_string ext (generator_param_at s param) value")
    show ?thesis
    proof (cases r1)
      case (Inl e1)
      then have "e = e1" using Cons.prems(1) entry Some f by simp
      then show ?thesis using Cons.prems(2) f Inl by blast
    next
      case (Inr u)
      then have "set_generator_param_values_loop ext params
          (s\<lparr>generator_param_at := (generator_param_at s)(param := object)\<rparr>) = (Inl e, s')"
        using Cons.prems(1) entry Some f by simp
      then show ?thesis using Cons.IH Cons.prems(2) by blast
    qed
  qed
qed

text \<open>
  Claim C3, as amended. Let the mapping hold a key that names no configuration
  parameter of the instance. Then \<^verbatim>\<open>set_generator_param_values\<close> raises. If the
  discovery raises, the call ends there with its error and no configuration parameter
  has changed. If the discovery returns, the keys before the unknown key are applied
  first, in the order of the mapping: the call ends in the state that the loop over
  these keys alone ends in, with the error of that loop if it raises and with the
  user error for the unknown key otherwise; the keys after the unknown key are never
  applied. An object that none of the earlier keys names keeps its value. When the
  unknown key is the first key of the mapping, every configuration parameter keeps
  its value. The error is a user error whenever \<^verbatim>\<open>from_string\<close> raises user errors
  only and, for a discovery that raises, no registered instance is null.
\<close>

theorem set_generator_param_values_unknown_key:
  assumes "build_params s = (r, s1)"
    and "r = Inr () \<longrightarrow> generator_params s1 key = None"
  shows "(\<exists>e s'. set_generator_param_values ext (before @ (key, value) # after) s = (Inl e, s') \<and>
            ((\<forall>object text e' object'. from_string ext object text = (Inl e', object') \<longrightarrow>
                is_user_error e') \<and>
             (r = Inr () \<or> (\<forall>kind. nullptr \<notin> set (instances_in_range s kind))) \<longrightarrow>
             is_user_error e) \<and>
            (\<forall>a. (\<forall>k \<in> fst ` set before. generator_params s1 k \<noteq> Some a) \<longrightarrow>
               generator_param_at s' a = generator_param_at s a)) \<and>
         set_generator_param_values ext (before @ (key, value) # after) s =
           (case r of
              Inl e \<Rightarrow> (Inl e, s1)
            | Inr _ \<Rightarrow>
                (case set_generator_param_values_loop ext before s1 of
                   (Inl e, s2) \<Rightarrow> (Inl e, s2)
                 | (Inr _, s2) \<Rightarrow>
                     (Inl (UserError (''Generator has no GeneratorParam named: '' @ key)), s2))) \<and>
         set_generator_param_values ext ((key, value) # after) s =
           (case r of
              Inl e \<Rightarrow> (Inl e, s1)
            | Inr _ \<Rightarrow>
                (Inl (UserError (''Generator has no GeneratorParam named: '' @ key)), s1)) \<and>
         generator_param_at s1 = generator_param_at s"
proof -
  have heap: "generator_param_at s1 = generator_param_at s"
    using build_params_frame [OF assms(1)] by simp
  show ?thesis
  proof (cases r)
    case (Inl e0)
    have run: "set_generator_param_values ext params s = (Inl e0, s1)" for params
      using assms(1) Inl by (simp add: set_generator_param_values_def)
    have user: "(\<forall>kind. nullptr \<notin> set (instances_in_range s kind)) \<longrightarrow> is_user_error e0"
      using build_params_failure [of s e0 s1] assms(1) Inl by blast
    have "\<exists>e s'. set_generator_param_values ext (before @ (key, value) # after) s = (Inl e, s') \<and>
        ((\<forall>object text e' object'. from_string ext object text = (Inl e', object') \<longrightarrow>
            is_user_error e') \<and>
         (r = Inr () \<or> (\<forall>kind. nullptr \<notin> set (instances_in_range s kind))) \<longrightarrow>
         is_user_error e) \<and>
        (\<forall>a. (\<forall>k \<in> fst ` set before. generator_params s1 k \<noteq> Some a) \<longrightarrow>
           generator_param_at s' a = generator_param_at s a)"
    proof (intro exI conjI)
      show "set_generator_param_values ext (before @ (key, value) # after) s = (Inl e0, s1)"
        by (rule run)
      show "(\<forall>object text e' object'. from_string ext object text = (Inl e', object') \<longrightarrow>
            is_user_error e') \<and>
         (r = Inr () \<or> (\<forall>kind. nullptr \<notin> set (instances_in_range s kind))) \<longrightarrow>
         is_user_error e0"
        using user Inl by simp
      show "\<forall>a. (\<forall>k \<in> fst ` set before. generator_params s1 k \<noteq> Some a) \<longrightarrow>
           generator_param_at s1 a = generator_param_at s a"
        using heap by simp
    qed
    then show ?thesis using run heap Inl by simp
  next
    case (Inr u)
    then have ok: "build_params s = (Inr (), s1)" using assms(1) by simp
    have none: "generator_params s1 key = None" using assms(2) Inr by simp
    obtain r2 s2 where b: "set_generator_param_values_loop ext before s1 = (r2, s2)"
      by (cases "set_generator_param_values_loop ext before s1")
    have s2: "s2 = s1\<lparr>generator_param_at := generator_param_at s2\<rparr>"
      using set_generator_param_values_loop_frame [OF b] .
    have "generator_params s2 = generator_params s1" by (subst s2) simp
    then have unknown: "generator_params s2 key = None" using none by simp
    have run: "set_generator_param_values ext (before @ (key, value) # after) s =
        (case set_generator_param_values_loop ext before s1 of
           (Inl e, s2) \<Rightarrow> (Inl e, s2)
         | (Inr _, s2) \<Rightarrow>
             (Inl (UserError (''Generator has no GeneratorParam named: '' @ key)), s2))"
      using ok b unknown
      by (simp add: set_generator_param_values_def set_generator_param_values_loop_append
          split: sum.splits)
    have first: "set_generator_param_values ext ((key, value) # after) s =
        (Inl (UserError (''Generator has no GeneratorParam named: '' @ key)), s1)"
      using ok none by (simp add: set_generator_param_values_def)
    have others: "\<forall>a. (\<forall>k \<in> fst ` set before. generator_params s1 k \<noteq> Some a) \<longrightarrow>
        generator_param_at s2 a = generator_param_at s a"
      using set_generator_param_values_loop_others [OF b] heap by auto
    have "\<exists>e s'. set_generator_param_values ext (before @ (key, value) # after) s = (Inl e, s') \<and>
        ((\<forall>object text e' object'. from_string ext object text = (Inl e', object') \<longrightarrow>
            is_user_error e') \<and>
         (r = Inr () \<or> (\<forall>kind. nullptr \<notin> set (instances_in_range s kind))) \<longrightarrow>
         is_user_error e) \<and>
        (\<forall>a. (\<forall>k \<in> fst ` set before. generator_params s1 k \<noteq> Some a) \<longrightarrow>
           generator_param_at s' a = generator_param_at s a)"
    proof (cases r2)
      case (Inl e)
      then have "set_generator_param_values ext (before @ (key, value) # after) s = (Inl e, s2)"
        using run b by simp
      moreover have "(\<forall>object text e' object'.
          from_string ext object text = (Inl e', object') \<longrightarrow> is_user_error e') \<longrightarrow>
          is_user_error e"
        using set_generator_param_values_loop_error b Inl by blast
      ultimately show ?thesis using others by blast
    next
      case r2: (Inr u2)
      then have "set_generator_param_values ext (before @ (key, value) # after) s =
          (Inl (UserError (''Generator has no GeneratorParam named: '' @ key)), s2)"
        using run b by simp
      moreover have
        "is_user_error (UserError (''Generator has no GeneratorParam named: '' @ key))"
        by (simp add: is_user_error_def)
      ultimately show ?thesis using others by blast
    qed
    then show ?thesis using run first heap Inr by simp
  qed
qed

lemmas set_values_eval =
  set_generator_param_values_def example_class_def int_from_string_def example_eval

theorem set_generator_param_values_unknown_key_witness:
  "build_params example_with_two_settings =
     (Inr (), example_with_two_settings\<lparr>filter_inputs := [20],
        generator_params := [''w'' \<mapsto> 30, ''y'' \<mapsto> 40], params_built := True\<rparr>) \<and>
   generator_params
     (example_with_two_settings\<lparr>filter_inputs := [20],
        generator_params := [''w'' \<mapsto> 30, ''y'' \<mapsto> 40], params_built := True\<rparr>) ''x'' = None \<and>
   fst (set_generator_param_values example_class
     [(''w'', ''5''), (''x'', ''1''), (''y'', ''9'')] example_with_two_settings) =
     Inl (UserError ''Generator has no GeneratorParam named: x'') \<and>
   generator_param_value (generator_param_at example_with_two_settings 30) = 0 \<and>
   generator_param_value (generator_param_at (snd (set_generator_param_values example_class
     [(''w'', ''5''), (''x'', ''1''), (''y'', ''9'')] example_with_two_settings)) 30) = 5 \<and>
   generator_param_value (generator_param_at (snd (set_generator_param_values example_class
     [(''w'', ''5''), (''x'', ''1''), (''y'', ''9'')] example_with_two_settings)) 40) = 0 \<and>
   build_params example_with_both =
     (Inl exclusive_error, example_with_both\<lparr>filter_params := [10], filter_inputs := [20]\<rparr>) \<and>
   set_generator_param_values example_class [(''w'', ''5''), (''x'', ''1'')] example_with_both =
     (Inl exclusive_error, example_with_both\<lparr>filter_params := [10], filter_inputs := [20]\<rparr>) \<and>
   generator_param_at (example_with_both\<lparr>filter_params := [10], filter_inputs := [20]\<rparr>) =
     generator_param_at example_with_both"
proof -
  let ?s1 = "example_with_two_settings\<lparr>filter_inputs := [20],
    generator_params := [''w'' \<mapsto> 30, ''y'' \<mapsto> 40], params_built := True\<rparr>"
  let ?call = "set_generator_param_values example_class
    [(''w'', ''5''), (''x'', ''1''), (''y'', ''9'')] example_with_two_settings"
  have h: "build_params example_with_two_settings = (Inr (), ?s1)"
    by (simp add: example_eval)
  have k: "generator_params ?s1 ''x'' = None" by simp
  then have k': "(Inr () :: error + unit) = Inr () \<longrightarrow> generator_params ?s1 ''x'' = None"
    by simp
  note t = set_generator_param_values_unknown_key [OF h k',
      of example_class "[(''w'', ''5'')]" "''1''" "[(''y'', ''9'')]"]
  have "?call =
      (case set_generator_param_values_loop example_class [(''w'', ''5'')] ?s1 of
         (Inl e, s2) \<Rightarrow> (Inl e, s2)
       | (Inr _, s2) \<Rightarrow>
           (Inl (UserError (''Generator has no GeneratorParam named: '' @ ''x'')), s2))"
    using t by simp
  also have "\<dots> = (Inl (UserError ''Generator has no GeneratorParam named: x''),
      ?s1\<lparr>generator_param_at := (generator_param_at ?s1)
        (30 := example_generator_param\<lparr>generator_param_value := 5\<rparr>)\<rparr>)"
    by (simp add: set_values_eval)
  finally have c: "?call = (Inl (UserError ''Generator has no GeneratorParam named: x''),
      ?s1\<lparr>generator_param_at := (generator_param_at ?s1)
        (30 := example_generator_param\<lparr>generator_param_value := 5\<rparr>)\<rparr>)" .
  have v: "fst ?call = Inl (UserError ''Generator has no GeneratorParam named: x'')"
    "generator_param_value (generator_param_at example_with_two_settings 30) = 0"
    "generator_param_value (generator_param_at (snd ?call) 30) = 5"
    "generator_param_value (generator_param_at (snd ?call) 40) = 0"
    unfolding c by (simp_all add: example_eval)
  let ?f1 = "example_with_both\<lparr>filter_params := [10], filter_inputs := [20]\<rparr>"
  have g: "build_params example_with_both = (Inl exclusive_error, ?f1)"
    by (simp add: example_eval)
  have g': "(Inl exclusive_error :: error + unit) = Inr () \<longrightarrow>
      generator_params ?f1 ''x'' = None"
    by simp
  note u = set_generator_param_values_unknown_key [OF g g',
      of example_class "[(''w'', ''5'')]" "''1''" "[]"]
  have f: "set_generator_param_values example_class [(''w'', ''5''), (''x'', ''1'')]
      example_with_both = (Inl exclusive_error, ?f1)"
    using u by simp
  have e: "generator_param_at ?f1 = generator_param_at example_with_both"
    using u by simp
  show ?thesis using h k v g f e by (intro conjI)
qed

text \<open>
  The claim as written has every configuration parameter keep its value. The mapping
  {"w" -> "5", "z" -> "1"} is visited in the order of its keys, "w" first: the
  configuration parameter "w" of the example, 0 before the call, is 5 when the call
  raises for the unknown key "z".
\<close>

theorem set_generator_param_values_applies_earlier_keys:
  "fst (set_generator_param_values example_class [(''w'', ''5''), (''z'', ''1'')]
     example_with_param) = Inl (UserError ''Generator has no GeneratorParam named: z'') \<and>
   generator_params (snd (build_params example_with_param)) ''z'' = None \<and>
   generator_params (snd (build_params example_with_param)) ''w'' = Some 30 \<and>
   generator_param_value (generator_param_at example_with_param 30) = 0 \<and>
   generator_param_value
     (generator_param_at
        (snd (set_generator_param_values example_class [(''w'', ''5''), (''z'', ''1'')]
           example_with_param)) 30) = 5"
  by (simp add: set_values_eval)

subsection \<open>\<^verbatim>\<open>get_filter_arguments\<close> and \<^verbatim>\<open>build_module\<close>\<close>

lemma init_inputs_loop_frame:
  "init_inputs_loop ext inputs s = s\<lparr>input_at := input_at (init_inputs_loop ext inputs s)\<rparr>"
proof (induction inputs arbitrary: s)
  case Nil
  then show ?case by simp
next
  case (Cons input inputs)
  let ?s1 = "s\<lparr>input_at := (input_at s)(input := init_internals ext s (input_at s input))\<rparr>"
  have "init_inputs_loop ext inputs ?s1 =
      ?s1\<lparr>input_at := input_at (init_inputs_loop ext inputs ?s1)\<rparr>"
    by (rule Cons.IH)
  then show ?case by simp
qed

lemma init_inputs_frame:
  "init_inputs ext s = s\<lparr>input_at := input_at (init_inputs ext s)\<rparr>"
  unfolding init_inputs_def by (rule init_inputs_loop_frame)

lemma init_inputs_fields:
  "filter_params (init_inputs ext s) = filter_params s"
  "filter_inputs (init_inputs ext s) = filter_inputs s"
  "generator_params (init_inputs ext s) = generator_params s"
  "params_built (init_inputs ext s) = params_built s"
  "parameter_at (init_inputs ext s) = parameter_at s"
  "generator_param_at (init_inputs ext s) = generator_param_at s"
  "instances_in_range (init_inputs ext s) = instances_in_range s"
  by (subst init_inputs_frame, simp)+

text \<open>Once the discovery is made, \<^verbatim>\<open>get_filter_arguments\<close> makes none.\<close>

lemma get_filter_arguments_built:
  "params_built s \<Longrightarrow>
     get_filter_arguments ext s =
       (Inr (filter_arguments (init_inputs ext s)), init_inputs ext s)"
  by (simp add: get_filter_arguments_def build_params_built filter_arguments_def Let_def)






subsection \<open>Repeated discovery\<close>

text \<open>
  Claim C8. After a \<^verbatim>\<open>build_params\<close> call that returns, \<^verbatim>\<open>params_built\<close> is set, and
  as long as it is set every further call returns and changes nothing, whatever has
  been declared or written to the objects in between: the lists of free parameters
  and of inputs and the map of configuration parameters stay as they are. The other
  member functions that run on a discovered instance, \<^verbatim>\<open>init_inputs\<close>,
  \<^verbatim>\<open>get_filter_arguments\<close> and \<^verbatim>\<open>set_generator_param_values\<close>, leave
  \<^verbatim>\<open>params_built\<close> set and these members as they are, whether they return or raise.
  \<^verbatim>\<open>rebuild_params\<close> clears them and runs the discovery again: what it does depends
  on none of them, and when it returns they hold what is declared then.
\<close>

theorem build_params_idempotent:
  assumes "build_params (s :: 'v GeneratorBase) = (Inr (), s')"
  shows "params_built s' \<and>
         build_params s' = (Inr (), s') \<and>
         build_params_times n s' = (Inr (), s') \<and>
         (\<forall>t :: 'v GeneratorBase. params_built t \<longrightarrow>
            build_params t = (Inr (), t) \<and> build_params_times n t = (Inr (), t)) \<and>
         (\<forall>t :: 'v GeneratorBase. params_built t \<longrightarrow>
            members_kept t (init_inputs ext t) \<and>
            members_kept t (snd (get_filter_arguments ext t)) \<and>
            members_kept t (snd (set_generator_param_values ext settings t))) \<and>
         build_params_times n
           (s'\<lparr>instances_in_range := declared, parameter_at := params, input_at := inputs,
              generator_param_at := gparams\<rparr>) =
           (Inr (), s'\<lparr>instances_in_range := declared, parameter_at := params,
              input_at := inputs, generator_param_at := gparams\<rparr>) \<and>
         rebuild_params s' =
           build_params (s'\<lparr>params_built := False, filter_inputs := [], filter_params := [],
             generator_params := Map.empty\<rparr>) \<and>
         rebuild_params
           (s'\<lparr>params_built := b, filter_inputs := fi, filter_params := fp,
              generator_params := gp\<rparr>) = rebuild_params s' \<and>
         (\<forall>(t :: 'v GeneratorBase) s''. rebuild_params t = (Inr (), s'') \<longrightarrow>
            params_built s'' \<and>
            filter_params s'' = instances_in_range t FilterParam \<and>
            filter_inputs s'' = instances_in_range t GeneratorInput \<and>
            generator_params s'' = declared_generator_params t)"
proof -
  have built: "params_built s'" using build_params_success assms by blast
  have times: "build_params_times n t = (Inr (), t)" if "params_built t"
    for t :: "'v GeneratorBase"
    by (induction n) (simp_all add: build_params_built [OF that])
  have every: "\<forall>t :: 'v GeneratorBase. params_built t \<longrightarrow>
      build_params t = (Inr (), t) \<and> build_params_times n t = (Inr (), t)"
    using build_params_built times by blast
  have between: "\<forall>t :: 'v GeneratorBase. params_built t \<longrightarrow>
      members_kept t (init_inputs ext t) \<and>
      members_kept t (snd (get_filter_arguments ext t)) \<and>
      members_kept t (snd (set_generator_param_values ext settings t))"
  proof (intro allI impI)
    fix t :: "'v GeneratorBase"
    assume t: "params_built t"
    have i: "members_kept t (init_inputs ext t)"
      by (simp add: members_kept_def init_inputs_fields)
    have g: "snd (get_filter_arguments ext t) = init_inputs ext t"
      by (simp add: get_filter_arguments_built [OF t])
    obtain r u where l: "set_generator_param_values_loop ext settings t = (r, u)"
      by (cases "set_generator_param_values_loop ext settings t")
    have "set_generator_param_values ext settings t = (r, u)"
      using l by (simp add: set_generator_param_values_def build_params_built [OF t])
    moreover have "members_kept t u"
      unfolding members_kept_def
      by (subst set_generator_param_values_loop_frame [OF l], simp)+
    ultimately have v: "members_kept t (snd (set_generator_param_values ext settings t))"
      by simp
    show "members_kept t (init_inputs ext t) \<and>
      members_kept t (snd (get_filter_arguments ext t)) \<and>
      members_kept t (snd (set_generator_param_values ext settings t))"
      using i g v by simp
  qed
  have later: "build_params_times n
      (s'\<lparr>instances_in_range := declared, parameter_at := params, input_at := inputs,
         generator_param_at := gparams\<rparr>) =
      (Inr (), s'\<lparr>instances_in_range := declared, parameter_at := params,
         input_at := inputs, generator_param_at := gparams\<rparr>)"
    by (rule times) (simp add: built)
  have again: "\<forall>(t :: 'v GeneratorBase) s''. rebuild_params t = (Inr (), s'') \<longrightarrow>
      params_built s'' \<and>
      filter_params s'' = instances_in_range t FilterParam \<and>
      filter_inputs s'' = instances_in_range t GeneratorInput \<and>
      generator_params s'' = declared_generator_params t"
  proof (intro allI impI)
    fix t s'' :: "'v GeneratorBase"
    let ?c = "t\<lparr>params_built := False, filter_inputs := [], filter_params := [],
      generator_params := Map.empty\<rparr>"
    assume "rebuild_params t = (Inr (), s'')"
    then have r: "build_params ?c = (Inr (), s'')" by (simp add: rebuild_params_def)
    have "\<not> params_built ?c" by simp
    from build_params_discovers [OF r this] build_params_success [OF r]
    show "params_built s'' \<and>
      filter_params s'' = instances_in_range t FilterParam \<and>
      filter_inputs s'' = instances_in_range t GeneratorInput \<and>
      generator_params s'' = declared_generator_params t"
      by (simp add: declared_generator_params_def)
  qed
  have reset: "rebuild_params s' =
      build_params (s'\<lparr>params_built := False, filter_inputs := [], filter_params := [],
        generator_params := Map.empty\<rparr>)"
    "rebuild_params
      (s'\<lparr>params_built := b, filter_inputs := fi, filter_params := fp,
         generator_params := gp\<rparr>) = rebuild_params s'"
    by (simp_all add: rebuild_params_def)
  show ?thesis
    using built build_params_built [OF built] times [OF built] every between later again
      reset
    by (intro conjI)
qed

theorem build_params_idempotent_witness:
  "build_params example_with_input =
     (Inr (), example_with_input\<lparr>filter_inputs := [20], generator_params := [''w'' \<mapsto> 30],
        params_built := True\<rparr>) \<and>
   build_params_times 3
     (example_with_input\<lparr>filter_inputs := [20], generator_params := [''w'' \<mapsto> 30],
        params_built := True\<rparr>) =
     (Inr (), example_with_input\<lparr>filter_inputs := [20], generator_params := [''w'' \<mapsto> 30],
        params_built := True\<rparr>) \<and>
   params_built example_late_param \<and>
   instances_in_range example_late_param FilterParam = [10] \<and>
   filter_params example_late_param = [] \<and>
   build_params_times 3 example_late_param = (Inr (), example_late_param) \<and>
   members_kept example_late_param
     (snd (set_generator_param_values example_class [(''w'', ''5'')] example_late_param)) \<and>
   fst (rebuild_params example_late_param) = Inl exclusive_error"
proof -
  have h: "build_params example_with_input =
     (Inr (), example_with_input\<lparr>filter_inputs := [20], generator_params := [''w'' \<mapsto> 30],
        params_built := True\<rparr>)"
    by (simp add: example_eval)
  note t = build_params_idempotent [OF h, where n = 3 and ext = example_class
      and settings = "[(''w'', ''5'')]"]
  have once: "build_params_times 3
     (example_with_input\<lparr>filter_inputs := [20], generator_params := [''w'' \<mapsto> 30],
        params_built := True\<rparr>) =
     (Inr (), example_with_input\<lparr>filter_inputs := [20], generator_params := [''w'' \<mapsto> 30],
        params_built := True\<rparr>)"
    by (rule t [THEN conjunct2, THEN conjunct2, THEN conjunct1])
  have late: "params_built example_late_param"
    "instances_in_range example_late_param FilterParam = [10]"
    "filter_params example_late_param = []"
    by (simp_all add: example_eval)
  have "\<forall>t :: int GeneratorBase. params_built t \<longrightarrow>
      build_params t = (Inr (), t) \<and> build_params_times 3 t = (Inr (), t)"
    by (rule t [THEN conjunct2, THEN conjunct2, THEN conjunct2, THEN conjunct1])
  then have more_calls: "build_params_times 3 example_late_param = (Inr (), example_late_param)"
    using late(1) by blast
  have "\<forall>t :: int GeneratorBase. params_built t \<longrightarrow>
      members_kept t (init_inputs example_class t) \<and>
      members_kept t (snd (get_filter_arguments example_class t)) \<and>
      members_kept t (snd (set_generator_param_values example_class [(''w'', ''5'')] t))"
    by (rule t [THEN conjunct2, THEN conjunct2, THEN conjunct2, THEN conjunct2,
          THEN conjunct1])
  then have kept: "members_kept example_late_param
      (snd (set_generator_param_values example_class [(''w'', ''5'')] example_late_param))"
    using late(1) by blast
  have reset: "fst (rebuild_params example_late_param) = Inl exclusive_error"
    by (simp add: rebuild_params_def example_eval)
  show ?thesis using h once late more_calls kept reset by (intro conjI)
qed

subsection \<open>The command-line driver\<close>

text \<open>
  When the loop over the arguments returns, the loop over these arguments followed by
  others goes on from what it returned.
\<close>

lemma parse_arguments_append:
  "parse_arguments env args st = Inr st' \<Longrightarrow>
     parse_arguments env (args @ extra) st = parse_arguments env extra st'"
proof (induction env args st rule: parse_arguments.induct)
  case (1 env flags_info generator_args)
  then show ?case by simp
next
  case (2 env arg rest flags_info generator_args)
  show ?case
  proof (cases "case arg of [] \<Rightarrow> True | c # x \<Rightarrow> c \<noteq> CHR ''-''")
    case True
    let ?v = "split_string env arg ''=''"
    have ok: "\<not> (length ?v \<noteq> 2 \<or> ?v ! 0 = [] \<or> ?v ! 1 = [])"
      using "2.prems" True by (auto simp: Let_def split: if_splits)
    then have "parse_arguments env rest
        (flags_info, map_assign (?v ! 0) (?v ! 1) generator_args) = Inr st'"
      using "2.prems" True by (simp add: Let_def)
    then have "parse_arguments env (rest @ extra)
        (flags_info, map_assign (?v ! 0) (?v ! 1) generator_args) =
        parse_arguments env extra st'"
      using "2.IH"(1) [OF True refl ok] by simp
    then show ?thesis using True ok by (simp add: Let_def)
  next
    case False
    then obtain x where known: "flags_info arg = Some x"
      using "2.prems" by (auto split: option.splits)
    then obtain v rest' where rest: "rest = v # rest'"
      using "2.prems" False by (cases rest) auto
    have "parse_arguments env rest' (flags_info(arg \<mapsto> v), generator_args) = Inr st'"
      using "2.prems" False known rest by simp
    then have "parse_arguments env (rest' @ extra) (flags_info(arg \<mapsto> v), generator_args) =
        parse_arguments env extra st'"
      using "2.IH"(2) [OF False known rest] by simp
    then show ?thesis using False known rest by simp
  qed
qed

text \<open>The loop assigns to the flags that \<^verbatim>\<open>flags_info\<close> holds and adds none.\<close>

lemma parse_arguments_dom:
  "parse_arguments env args st = Inr st' \<Longrightarrow> dom (fst st') = dom (fst st)"
proof (induction env args st rule: parse_arguments.induct)
  case (1 env flags_info generator_args)
  then show ?case by auto
next
  case (2 env arg rest flags_info generator_args)
  show ?case
  proof (cases "case arg of [] \<Rightarrow> True | c # x \<Rightarrow> c \<noteq> CHR ''-''")
    case True
    let ?v = "split_string env arg ''=''"
    have ok: "\<not> (length ?v \<noteq> 2 \<or> ?v ! 0 = [] \<or> ?v ! 1 = [])"
      using "2.prems" True by (auto simp: Let_def split: if_splits)
    then have "parse_arguments env rest
        (flags_info, map_assign (?v ! 0) (?v ! 1) generator_args) = Inr st'"
      using "2.prems" True by (simp add: Let_def)
    then show ?thesis using "2.IH"(1) [OF True refl ok] by simp
  next
    case False
    then obtain x where known: "flags_info arg = Some x"
      using "2.prems" by (auto split: option.splits)
    then obtain v rest' where rest: "rest = v # rest'"
      using "2.prems" False by (cases rest) auto
    have "parse_arguments env rest' (flags_info(arg \<mapsto> v), generator_args) = Inr st'"
      using "2.prems" False known rest by simp
    then have "dom (fst st') = dom (fst (flags_info(arg \<mapsto> v), generator_args))"
      by (rule "2.IH"(2) [OF False known rest])
    moreover have "dom (flags_info(arg \<mapsto> v)) = dom flags_info" using known by auto
    ultimately show ?thesis by (simp only: fst_conv)
  qed
qed

lemma map_at_other_flag:
  "k \<noteq> flag \<Longrightarrow> map_at (flags_info(flag \<mapsto> v)) k = map_at flags_info k"
  by (simp add: map_at_def)

text \<open>Nothing after line 197 reads the flag \<^verbatim>\<open>-g\<close>.\<close>

lemma generate_files_ignores_generator_flag:
  "generate_files env (flags_info(''-g'' \<mapsto> g)) generator_args runtime_name generator_name =
   generate_files env flags_info generator_args runtime_name generator_name"
proof -
  have h: "map_at (flags_info(''-g'' \<mapsto> g)) ''-f'' = map_at flags_info ''-f''"
    "map_at (flags_info(''-g'' \<mapsto> g)) ''-o'' = map_at flags_info ''-o''"
    "map_at (flags_info(''-g'' \<mapsto> g)) ''-n'' = map_at flags_info ''-n''"
    "map_at (flags_info(''-g'' \<mapsto> g)) ''-e'' = map_at flags_info ''-e''"
    "map_at (flags_info(''-g'' \<mapsto> g)) ''-x'' = map_at flags_info ''-x''"
    by (simp_all add: map_at_other_flag)
  show ?thesis unfolding generate_files_def make_emit_options_def h by (rule refl)
qed

text \<open>The run with the flag \<^verbatim>\<open>-g\<close> and a name added at the end of the command line.\<close>

lemma generate_filter_main_with_generator_flag:
  assumes "parse_arguments env (drop 1 argv) (flags_info_init, []) =
      Inr (flags_info, generator_args)"
    and "argv \<noteq> []" and "map_at flags_info ''-r'' = []"
    and "enumerate_names (generator_registry env) = [g]"
  shows "generate_filter_main env (argv @ [''-g'', g]) =
    generate_files env flags_info generator_args [] g"
proof -
  have "dom flags_info = dom flags_info_init"
    using parse_arguments_dom [OF assms(1)] by simp
  then have "''-g'' \<in> dom flags_info" by (simp add: flags_info_init_def)
  then obtain old where old: "flags_info ''-g'' = Some old" by auto
  have "parse_arguments env (drop 1 argv @ [''-g'', g]) (flags_info_init, []) =
      parse_arguments env [''-g'', g] (flags_info, generator_args)"
    by (rule parse_arguments_append [OF assms(1)])
  also have "\<dots> = Inr (flags_info(''-g'' \<mapsto> g), generator_args)"
    using old by simp
  finally have p: "parse_arguments env (drop 1 (argv @ [''-g'', g])) (flags_info_init, []) =
      Inr (flags_info(''-g'' \<mapsto> g), generator_args)"
    using assms(2) by (cases argv) simp_all
  have r: "map_at (flags_info(''-g'' \<mapsto> v)) ''-r'' = []" for v
    using assms(3) by (simp add: map_at_other_flag)
  have n: "map_at (flags_info(''-g'' \<mapsto> v)) ''-g'' = v" for v by (simp add: map_at_def)
  have "generate_filter_main env (argv @ [''-g'', g]) =
      generate_files env (flags_info(''-g'' \<mapsto> g)) generator_args [] g"
    unfolding generate_filter_main_def p using assms(4) r n by (simp add: Let_def)
  then show ?thesis by (simp only: generate_files_ignores_generator_flag)
qed

lemmas driver_eval =
  generate_filter_main_def generate_files_def make_emit_options_def compile_targets_def
  module_producer_def create_def enumerate_names_def compute_base_path_def
  flags_info_init_def map_at_def entry_at_def EmitOptions_default_def
  example_environment_def example_split_string_def example_Target_from_string_def
  example_Target_to_string_def example_factory_def linux_target_def windows_target_def
  Let_def build_module_def get_filter_arguments_def set_values_eval compute_outputs_eval
  init_inputs_def init_internals_def to_argument_def

text \<open>
  Claim C6. A command line that the loop over the arguments rejects is a usage error
  with status 1. Let it be accepted, with neither \<^verbatim>\<open>-g\<close> nor \<^verbatim>\<open>-r\<close> given. If more
  than one generator is registered, or none, the run is a usage error: it returns 1,
  having written the message and the usage text, and makes no call. If exactly one
  generator is registered, it is selected: the run goes on as \<^verbatim>\<open>generate_files\<close>
  with the name of that generator, and it is the run of the same command line with
  \<^verbatim>\<open>-g\<close> and that name added.
\<close>

theorem generate_filter_main_resolves_generator:
  "(\<forall>msg. parse_arguments env (drop 1 argv) (flags_info_init, []) = Inl msg \<longrightarrow>
      generate_filter_main env argv = \<lparr>status = Returned 1, cerr = msg, calls = []\<rparr>) \<and>
   (\<forall>flags_info generator_args.
      parse_arguments env (drop 1 argv) (flags_info_init, []) =
        Inr (flags_info, generator_args) \<and>
      map_at flags_info ''-g'' = [] \<and> map_at flags_info ''-r'' = [] \<longrightarrow>
      (length (enumerate_names (generator_registry env)) > 1 \<longrightarrow>
         generate_filter_main env argv =
           \<lparr>status = Returned 1,
            cerr = [''-g must be specified if multiple generators are registered:'' @ newline] @
                   map (\<lambda>name. ''    '' @ name @ newline)
                     (enumerate_names (generator_registry env)) @ [kUsage],
            calls = []\<rparr>) \<and>
      (length (enumerate_names (generator_registry env)) = 0 \<longrightarrow>
         generate_filter_main env argv =
           \<lparr>status = Returned 1,
            cerr = [''No generators have been registered and not compiling a '' @
                      ''standalone runtime'' @ newline, kUsage],
            calls = []\<rparr>) \<and>
      (\<forall>g. enumerate_names (generator_registry env) = [g] \<longrightarrow>
         generate_filter_main env argv = generate_files env flags_info generator_args [] g \<and>
         (argv \<noteq> [] \<longrightarrow>
            generate_filter_main env (argv @ [''-g'', g]) = generate_filter_main env argv)))"
proof (intro conjI allI impI)
  fix msg
  assume "parse_arguments env (drop 1 argv) (flags_info_init, []) = Inl msg"
  then show "generate_filter_main env argv = \<lparr>status = Returned 1, cerr = msg, calls = []\<rparr>"
    by (simp add: generate_filter_main_def)
next
  fix flags_info generator_args
  assume a: "parse_arguments env (drop 1 argv) (flags_info_init, []) =
        Inr (flags_info, generator_args) \<and>
      map_at flags_info ''-g'' = [] \<and> map_at flags_info ''-r'' = []"
  assume many: "length (enumerate_names (generator_registry env)) > 1"
  then have "enumerate_names (generator_registry env) \<noteq> []" by auto
  with many show "generate_filter_main env argv =
           \<lparr>status = Returned 1,
            cerr = [''-g must be specified if multiple generators are registered:'' @ newline] @
                   map (\<lambda>name. ''    '' @ name @ newline)
                     (enumerate_names (generator_registry env)) @ [kUsage],
            calls = []\<rparr>"
    using a by (simp add: generate_filter_main_def Let_def)
next
  fix flags_info generator_args
  assume a: "parse_arguments env (drop 1 argv) (flags_info_init, []) =
        Inr (flags_info, generator_args) \<and>
      map_at flags_info ''-g'' = [] \<and> map_at flags_info ''-r'' = []"
  assume "length (enumerate_names (generator_registry env)) = 0"
  then show "generate_filter_main env argv =
           \<lparr>status = Returned 1,
            cerr = [''No generators have been registered and not compiling a '' @
                      ''standalone runtime'' @ newline, kUsage],
            calls = []\<rparr>"
    using a by (simp add: generate_filter_main_def Let_def)
next
  fix flags_info generator_args g
  assume a: "parse_arguments env (drop 1 argv) (flags_info_init, []) =
        Inr (flags_info, generator_args) \<and>
      map_at flags_info ''-g'' = [] \<and> map_at flags_info ''-r'' = []"
  assume one: "enumerate_names (generator_registry env) = [g]"
  show selected: "generate_filter_main env argv =
      generate_files env flags_info generator_args [] g"
    using a one by (simp add: generate_filter_main_def Let_def)
  assume "argv \<noteq> []"
  then have "generate_filter_main env (argv @ [''-g'', g]) =
      generate_files env flags_info generator_args [] g"
    using generate_filter_main_with_generator_flag a one by blast
  then show "generate_filter_main env (argv @ [''-g'', g]) = generate_filter_main env argv"
    using selected by simp
qed

theorem generate_filter_main_resolves_generator_witness:
  "parse_arguments example_environment
     (drop 1 [''gengen'', ''-o'', ''/tmp'', ''target=host'', ''w=42'']) (flags_info_init, []) =
     Inr (flags_info_init(''-o'' \<mapsto> ''/tmp''), [(''target'', ''host''), (''w'', ''42'')]) \<and>
   map_at (flags_info_init(''-o'' \<mapsto> ''/tmp'')) ''-g'' = [] \<and>
   map_at (flags_info_init(''-o'' \<mapsto> ''/tmp'')) ''-r'' = [] \<and>
   enumerate_names (generator_registry example_environment) = [''myfilt''] \<and>
   generate_filter_main example_environment
     [''gengen'', ''-o'', ''/tmp'', ''target=host'', ''w=42''] =
   generate_files example_environment (flags_info_init(''-o'' \<mapsto> ''/tmp''))
     [(''target'', ''host''), (''w'', ''42'')] [] ''myfilt'' \<and>
   generate_filter_main example_environment
     ([''gengen'', ''-o'', ''/tmp'', ''target=host'', ''w=42''] @ [''-g'', ''myfilt'']) =
   generate_filter_main example_environment
     [''gengen'', ''-o'', ''/tmp'', ''target=host'', ''w=42''] \<and>
   calls (generate_filter_main example_environment
     [''gengen'', ''-o'', ''/tmp'', ''target=host'', ''w=42'']) =
   [Module_compile
      (7, [to_argument (input_parameter example_input)], ''myfilt'', linux_target, External)
      (Outputs_default\<lparr>c_header_name := ''/tmp/myfilt.h'',
         static_library_name := ''/tmp/myfilt.a''\<rparr>)]"
proof -
  let ?argv = "[''gengen'', ''-o'', ''/tmp'', ''target=host'', ''w=42'']"
  let ?fi = "flags_info_init(''-o'' \<mapsto> ''/tmp'')"
  let ?ga = "[(''target'', ''host''), (''w'', ''42'')]"
  have p: "parse_arguments example_environment (drop 1 ?argv) (flags_info_init, []) =
      Inr (?fi, ?ga)"
    by (simp add: example_environment_def example_split_string_def flags_info_init_def)
  have f: "map_at ?fi ''-g'' = []" "map_at ?fi ''-r'' = []"
    by (simp_all add: map_at_def flags_info_init_def)
  have n: "enumerate_names (generator_registry example_environment) = [''myfilt'']"
    by (simp add: enumerate_names_def example_environment_def)
  have ne: "?argv \<noteq> []" by simp
  note t = generate_filter_main_resolves_generator [of example_environment ?argv,
      THEN conjunct2, THEN spec, THEN spec, of ?fi ?ga]
  have s: "generate_filter_main example_environment ?argv =
      generate_files example_environment ?fi ?ga [] ''myfilt''"
    using t p f n by blast
  have g: "generate_filter_main example_environment (?argv @ [''-g'', ''myfilt'']) =
      generate_filter_main example_environment ?argv"
    using t p f n ne by blast
  have c: "calls (generate_filter_main example_environment ?argv) =
     [Module_compile
        (7, [to_argument (input_parameter example_input)], ''myfilt'', linux_target, External)
        (Outputs_default\<lparr>c_header_name := ''/tmp/myfilt.h'',
           static_library_name := ''/tmp/myfilt.a''\<rparr>)]"
    by (simp add: driver_eval)
  show ?thesis using p f n s g c by blast
qed

text \<open>
  Lines 272-306 with a generator name, no runtime name and two or more targets: one
  call, to the multi-target service, with the outputs of the first target.
\<close>

lemma compile_targets_multitarget:
  assumes "generator_name \<noteq> []" and "later \<noteq> []"
  shows "compile_targets env [] generator_name function_name output_dir file_base_name
      emit_options generator_args (first # later) err =
    \<lparr>status = Returned 0, cerr = err,
     calls = [compile_multitarget function_name
       (compute_outputs first
          (compute_base_path env output_dir function_name file_base_name) emit_options)
       (first # later) (module_producer env generator_name generator_args)]\<rparr>"
  using assms by (simp add: compile_targets_def Let_def)

lemma compile_targets_runtime_multitarget:
  assumes "runtime_name \<noteq> []" and "later \<noteq> []"
  shows "compile_targets env runtime_name generator_name function_name output_dir
      file_base_name emit_options generator_args (first # later) err =
    \<lparr>status = Returned 1, cerr = err @ [''Only one target allowed here''], calls = []\<rparr>"
  using assms by (simp add: compile_targets_def)

text \<open>
  Claim C9. Take a command line that is accepted, with a generator name given by
  \<^verbatim>\<open>-g\<close>, with an output directory and a target argument, whose emit options are
  well formed and whose target argument lists two or more targets. Without a runtime
  name, and with a generator registered, the run makes one call, to the multi-target
  service, and the outputs it hands over are those that \<^verbatim>\<open>compute_outputs\<close> gives for
  the first target of the list: the later targets are handed over in the list of
  targets only, so two lists with the same first target get the same outputs. With a
  runtime name the run returns 1 and hands over nothing.
\<close>

theorem generate_filter_main_multitarget_outputs:
  assumes "parse_arguments env (drop 1 argv) (flags_info_init, []) =
      Inr (flags_info, generator_args)"
    and "map_at flags_info ''-g'' \<noteq> []"
    and "map_at flags_info ''-o'' \<noteq> []"
    and "map_of generator_args ''target'' \<noteq> None"
    and "make_emit_options env flags_info = (err, Inr emit_options)"
    and "make_targets env (split_string env (entry_at generator_args ''target'') '','') [] =
      Inr (first # later)"
    and "later \<noteq> []"
  shows "(map_at flags_info ''-r'' = [] \<and> enumerate_names (generator_registry env) \<noteq> [] \<longrightarrow>
           generate_filter_main env argv =
             \<lparr>status = Returned 0, cerr = err,
              calls = [compile_multitarget
                (if map_at flags_info ''-f'' = [] then map_at flags_info ''-g''
                 else map_at flags_info ''-f'')
                (compute_outputs first
                   (compute_base_path env (map_at flags_info ''-o'')
                      (if map_at flags_info ''-f'' = [] then map_at flags_info ''-g''
                       else map_at flags_info ''-f'')
                      (map_at flags_info ''-n''))
                   emit_options)
                (first # later)
                (module_producer env (map_at flags_info ''-g'') generator_args)]\<rparr>) \<and>
         (map_at flags_info ''-r'' \<noteq> [] \<longrightarrow>
           generate_filter_main env argv =
             \<lparr>status = Returned 1, cerr = err @ [''Only one target allowed here''],
              calls = []\<rparr>) \<and>
         (\<forall>others. others \<noteq> [] \<longrightarrow>
            calls (compile_targets env [] (map_at flags_info ''-g'')
              (if map_at flags_info ''-f'' = [] then map_at flags_info ''-g''
               else map_at flags_info ''-f'')
              (map_at flags_info ''-o'') (map_at flags_info ''-n'') emit_options generator_args
              (first # others) err) =
            [compile_multitarget
               (if map_at flags_info ''-f'' = [] then map_at flags_info ''-g''
                else map_at flags_info ''-f'')
               (compute_outputs first
                  (compute_base_path env (map_at flags_info ''-o'')
                     (if map_at flags_info ''-f'' = [] then map_at flags_info ''-g''
                      else map_at flags_info ''-f'')
                     (map_at flags_info ''-n''))
                  emit_options)
               (first # others)
               (module_producer env (map_at flags_info ''-g'') generator_args)])"
proof (intro conjI impI allI)
  let ?fn = "if map_at flags_info ''-f'' = [] then map_at flags_info ''-g''
    else map_at flags_info ''-f''"
  have files: "generate_files env flags_info generator_args (map_at flags_info ''-r'')
      (map_at flags_info ''-g'') =
    compile_targets env (map_at flags_info ''-r'') (map_at flags_info ''-g'') ?fn
      (map_at flags_info ''-o'') (map_at flags_info ''-n'') emit_options generator_args
      (first # later) err"
  proof -
    obtain y where y: "map_of generator_args ''target'' = Some y"
      using assms(4) by auto
    show ?thesis using assms(3,5,6) y by (simp add: generate_files_def Let_def)
  qed
  {
    assume a: "map_at flags_info ''-r'' = [] \<and> enumerate_names (generator_registry env) \<noteq> []"
    have "generate_filter_main env argv =
        generate_files env flags_info generator_args [] (map_at flags_info ''-g'')"
      using assms(1,2) a by (simp add: generate_filter_main_def Let_def)
    also have "\<dots> = compile_targets env [] (map_at flags_info ''-g'') ?fn
        (map_at flags_info ''-o'') (map_at flags_info ''-n'') emit_options generator_args
        (first # later) err"
      using files a by simp
    also have "\<dots> = \<lparr>status = Returned 0, cerr = err,
         calls = [compile_multitarget ?fn
           (compute_outputs first
              (compute_base_path env (map_at flags_info ''-o'') ?fn (map_at flags_info ''-n''))
              emit_options)
           (first # later)
           (module_producer env (map_at flags_info ''-g'') generator_args)]\<rparr>"
      by (rule compile_targets_multitarget [OF assms(2) assms(7)])
    finally show "generate_filter_main env argv =
        \<lparr>status = Returned 0, cerr = err,
         calls = [compile_multitarget ?fn
           (compute_outputs first
              (compute_base_path env (map_at flags_info ''-o'') ?fn (map_at flags_info ''-n''))
              emit_options)
           (first # later)
           (module_producer env (map_at flags_info ''-g'') generator_args)]\<rparr>" .
  }
  {
    assume a: "map_at flags_info ''-r'' \<noteq> []"
    have "generate_filter_main env argv =
        generate_files env flags_info generator_args (map_at flags_info ''-r'')
          (map_at flags_info ''-g'')"
      using assms(1,2) a by (simp add: generate_filter_main_def Let_def)
    also have "\<dots> = compile_targets env (map_at flags_info ''-r'') (map_at flags_info ''-g'')
        ?fn (map_at flags_info ''-o'') (map_at flags_info ''-n'') emit_options generator_args
        (first # later) err"
      by (rule files)
    also have "\<dots> =
        \<lparr>status = Returned 1, cerr = err @ [''Only one target allowed here''], calls = []\<rparr>"
      by (rule compile_targets_runtime_multitarget [OF a assms(7)])
    finally show "generate_filter_main env argv =
        \<lparr>status = Returned 1, cerr = err @ [''Only one target allowed here''], calls = []\<rparr>" .
  }
  {
    fix others :: "Target list"
    assume "others \<noteq> []"
    then have "compile_targets env [] (map_at flags_info ''-g'') ?fn
        (map_at flags_info ''-o'') (map_at flags_info ''-n'') emit_options generator_args
        (first # others) err =
      \<lparr>status = Returned 0, cerr = err,
       calls = [compile_multitarget ?fn
         (compute_outputs first
            (compute_base_path env (map_at flags_info ''-o'') ?fn (map_at flags_info ''-n''))
            emit_options)
         (first # others)
         (module_producer env (map_at flags_info ''-g'') generator_args)]\<rparr>"
      by (rule compile_targets_multitarget [OF assms(2)])
    then show "calls (compile_targets env [] (map_at flags_info ''-g'') ?fn
        (map_at flags_info ''-o'') (map_at flags_info ''-n'') emit_options generator_args
        (first # others) err) =
      [compile_multitarget ?fn
         (compute_outputs first
            (compute_base_path env (map_at flags_info ''-o'') ?fn (map_at flags_info ''-n''))
            emit_options)
         (first # others)
         (module_producer env (map_at flags_info ''-g'') generator_args)]"
      by (simp only: run.simps)
  }
qed

theorem generate_filter_main_multitarget_outputs_witness:
  "parse_arguments example_environment
     (drop 1 [''gengen'', ''-g'', ''myfilt'', ''-o'', ''/tmp'',
        ''target=x86-64-linux,x86-64-windows''])
     (flags_info_init, []) =
     Inr (flags_info_init(''-g'' \<mapsto> ''myfilt'', ''-o'' \<mapsto> ''/tmp''),
       [(''target'', ''x86-64-linux,x86-64-windows'')]) \<and>
   make_targets example_environment
     (split_string example_environment
        (entry_at [(''target'', ''x86-64-linux,x86-64-windows'')] ''target'') '','') [] =
     Inr [linux_target, windows_target] \<and>
   generate_filter_main example_environment
     [''gengen'', ''-g'', ''myfilt'', ''-o'', ''/tmp'', ''target=x86-64-linux,x86-64-windows''] =
   \<lparr>status = Returned 0, cerr = [],
    calls = [compile_multitarget ''myfilt''
      (Outputs_default\<lparr>c_header_name := ''/tmp/myfilt.h'',
         static_library_name := ''/tmp/myfilt.a''\<rparr>)
      [linux_target, windows_target]
      (module_producer example_environment ''myfilt''
         [(''target'', ''x86-64-linux,x86-64-windows'')])]\<rparr>"
proof -
  let ?argv = "[''gengen'', ''-g'', ''myfilt'', ''-o'', ''/tmp'',
    ''target=x86-64-linux,x86-64-windows'']"
  let ?fi = "flags_info_init(''-g'' \<mapsto> ''myfilt'', ''-o'' \<mapsto> ''/tmp'')"
  let ?ga = "[(''target'', ''x86-64-linux,x86-64-windows'')]"
  let ?opts = "EmitOptions_default"
  have h: "parse_arguments example_environment (drop 1 ?argv) (flags_info_init, []) =
      Inr (?fi, ?ga)"
    "map_at ?fi ''-g'' \<noteq> []"
    "map_at ?fi ''-o'' \<noteq> []"
    "map_of ?ga ''target'' \<noteq> None"
    "make_emit_options example_environment ?fi = ([], Inr ?opts)"
    "make_targets example_environment
       (split_string example_environment (entry_at ?ga ''target'') '','') [] =
     Inr (linux_target # [windows_target])"
    "[windows_target] \<noteq> []"
    by (simp_all add: example_environment_def example_split_string_def flags_info_init_def
        map_at_def entry_at_def make_emit_options_def EmitOptions_default_def
        example_Target_from_string_def)
  have r: "map_at ?fi ''-r'' = [] \<and>
      enumerate_names (generator_registry example_environment) \<noteq> []"
    by (simp add: map_at_def flags_info_init_def enumerate_names_def example_environment_def)
  have v: "map_at ?fi ''-f'' = []" "map_at ?fi ''-g'' = ''myfilt''" "map_at ?fi ''-o'' = ''/tmp''"
    "map_at ?fi ''-n'' = []"
    by (simp_all add: map_at_def flags_info_init_def)
  have o: "compute_outputs linux_target
      (compute_base_path example_environment ''/tmp'' ''myfilt'' []) EmitOptions_default =
    Outputs_default\<lparr>c_header_name := ''/tmp/myfilt.h'',
      static_library_name := ''/tmp/myfilt.a''\<rparr>"
    by (simp add: compute_outputs_eval compute_base_path_def example_environment_def
        EmitOptions_default_def linux_target_def)
  from generate_filter_main_multitarget_outputs [OF h, THEN conjunct1] r
  have "generate_filter_main example_environment ?argv =
     \<lparr>status = Returned 0, cerr = [],
      calls = [compile_multitarget
        (if map_at ?fi ''-f'' = [] then map_at ?fi ''-g'' else map_at ?fi ''-f'')
        (compute_outputs linux_target
           (compute_base_path example_environment (map_at ?fi ''-o'')
              (if map_at ?fi ''-f'' = [] then map_at ?fi ''-g'' else map_at ?fi ''-f'')
              (map_at ?fi ''-n''))
           EmitOptions_default)
        [linux_target, windows_target]
        (module_producer example_environment (map_at ?fi ''-g'') ?ga)]\<rparr>"
    by blast
  then have "generate_filter_main example_environment ?argv =
     \<lparr>status = Returned 0, cerr = [],
      calls = [compile_multitarget ''myfilt''
        (Outputs_default\<lparr>c_header_name := ''/tmp/myfilt.h'',
           static_library_name := ''/tmp/myfilt.a''\<rparr>)
        [linux_target, windows_target]
        (module_producer example_environment ''myfilt'' ?ga)]\<rparr>"
    unfolding v using o by simp
  then show ?thesis using h(1,6) by simp
qed

end
